theory Spec2Isabelle
  imports Main "HOL-Library.Word" "HOL-Library.Product_Lexorder"
begin

section \<open>Data model\<close>

text \<open>
  The data structures of \<^verbatim>\<open>high_level/common/data_structures.py\<close> and
  \<^verbatim>\<open>high_level/rlmd/rlmd_data_structures.py\<close>. \<^verbatim>\<open>Hash\<close> and \<^verbatim>\<open>NodeIdentity\<close> are
  opaque identifiers compared by content. Python integers are unbounded: \<open>int\<close>.

  A persistent set (\<^verbatim>\<open>PSet\<close>) is represented by the list of its elements in iteration
  order; a persistent map (\<^verbatim>\<open>PMap\<close>) by an association list read with \<open>map_of\<close>
  (the first binding of a key is the map's). Statements about the contents of a set are
  made through \<open>set\<close>.
\<close>

type_synonym Hash = string
type_synonym NodeIdentity = string

datatype Signature = Signature

datatype BlockBody = BlockBody

type_synonym ValidatorBalances = "(NodeIdentity \<times> int) list"

record Checkpoint =
  block_hash :: Hash
  chkp_slot :: int
  block_slot :: int

record VoteMessage =
  slot :: int
  head_hash :: Hash
  ffg_source :: Checkpoint
  ffg_target :: Checkpoint

record SignedVoteMessage =
  message :: VoteMessage
  signature :: Signature
  sender :: NodeIdentity

record Block =
  parent_hash :: Hash
  slot :: int
  votes :: "SignedVoteMessage list"
  body :: BlockBody

datatype NodePhase = PROPOSE | VOTE | CONFIRM | MERGE

record Configuration =
  delta :: int
  genesis :: Block
  eta :: int
  k :: int

type_synonym BlockView = "(Hash \<times> Block) list"

record CommonNodeState =
  configuration :: Configuration
  identity :: NodeIdentity
  current_slot :: int
  view_blocks :: BlockView
  view_votes :: "SignedVoteMessage list"
  chava :: Block

record NodeState =
  common :: CommonNodeState
  current_phase :: NodePhase
  buffer_votes :: "SignedVoteMessage list"
  buffer_blocks :: BlockView

text \<open>
  The functions of \<^verbatim>\<open>stubs.py\<close> are not part of the sources: block hashing, signature
  verification and the validator-set lookup are parameters of the model.
\<close>

record Stubs =
  block_hash_of :: "Block \<Rightarrow> Hash"
  verify_vote_signature :: "SignedVoteMessage \<Rightarrow> bool"
  get_validator_set_for_slot :: "Block \<Rightarrow> int \<Rightarrow> CommonNodeState \<Rightarrow> ValidatorBalances"

section \<open>Exceptions and the collection helpers\<close>

text \<open>
  A Python call either returns a value (\<open>Inr\<close>) or raises (\<open>Inl\<close>). \<open>RecursionError\<close>
  stands for a recursion that never bottoms out. \<^verbatim>\<open>Requires\<close> of
  \<^verbatim>\<open>formal_verification_annotations.py\<close> is a no-op at run time, so a breached
  precondition shows as the exception of the operation it was meant to protect.
\<close>

datatype error = KeyError | RecursionError | ValueError | ZeroDivisionError | TypeError | AttributeError

type_synonym 'a result = "error + 'a"

definition bind :: "'a result \<Rightarrow> ('a \<Rightarrow> 'b result) \<Rightarrow> 'b result" where
  "bind m f = (case m of Inl e \<Rightarrow> Inl e | Inr x \<Rightarrow> f x)"

text \<open>Python's short-circuit \<^verbatim>\<open>a and b\<close> on Booleans: \<^verbatim>\<open>b\<close> is evaluated only when
  \<^verbatim>\<open>a\<close> returned \<^verbatim>\<open>True\<close>.\<close>

definition pand :: "bool result \<Rightarrow> bool result \<Rightarrow> bool result" where
  "pand a b = (case a of Inl e \<Rightarrow> Inl e | Inr x \<Rightarrow> (if x then b else Inr False))"

definition py_floordiv :: "int \<Rightarrow> int \<Rightarrow> int result" where
  "py_floordiv a b = (if b = 0 then Inl ZeroDivisionError else Inr (a div b))"

definition py_mod :: "int \<Rightarrow> int \<Rightarrow> int result" where
  "py_mod a b = (if b = 0 then Inl ZeroDivisionError else Inr (a mod b))"

text \<open>
  The helpers of \<^verbatim>\<open>pythonic_code_generic.py\<close> are not part of the sources either. They are
  modelled from their use: \<^verbatim>\<open>pset_filter(p, s)\<close> keeps the elements of \<^verbatim>\<open>s\<close> on which
  \<^verbatim>\<open>p\<close> holds (\<^verbatim>\<open>filter_out_invalid_votes\<close> passes \<^verbatim>\<open>valid_vote\<close>,
  \<^verbatim>\<open>filter_out_GHOST_equivocating_votes\<close> passes the negated test, \<^verbatim>\<open>get_children\<close> the
  test for being a child). \<open>pset_filter\<close> is the helper for a predicate that cannot
  raise, \<open>pset_filter_r\<close> the same loop for one that can: the first exception ends it.
\<close>

definition pset_filter :: "('a \<Rightarrow> bool) \<Rightarrow> 'a list \<Rightarrow> 'a list" where
  "pset_filter p s = filter p s"

fun pset_filter_r :: "('a \<Rightarrow> bool result) \<Rightarrow> 'a list \<Rightarrow> 'a list result" where
  "pset_filter_r p [] = Inr []"
| "pset_filter_r p (x # xs) =
     (case p x of
        Inl e \<Rightarrow> Inl e
      | Inr b \<Rightarrow> (case pset_filter_r p xs of
                   Inl e \<Rightarrow> Inl e
                 | Inr ys \<Rightarrow> Inr (if b then x # ys else ys)))"

definition pset_map_to_pset :: "('a \<Rightarrow> 'b) \<Rightarrow> 'a list \<Rightarrow> 'b list" where
  "pset_map_to_pset f s = remdups (map f s)"

definition pset_is_empty :: "'a list \<Rightarrow> bool" where
  "pset_is_empty s = (s = [])"

definition pset_merge :: "'a list \<Rightarrow> 'a list \<Rightarrow> 'a list" where
  "pset_merge a b = remdups (a @ b)"

definition pset_get_empty :: "'a list" where
  "pset_get_empty = []"

definition pmap_get_empty :: "('k \<times> 'v) list" where
  "pmap_get_empty = []"

definition pmap_has :: "('k \<times> 'v) list \<Rightarrow> 'k \<Rightarrow> bool" where
  "pmap_has m key = (map_of m key \<noteq> None)"

definition pmap_get :: "('k \<times> 'v) list \<Rightarrow> 'k \<Rightarrow> 'v result" where
  "pmap_get m key = (case map_of m key of None \<Rightarrow> Inl KeyError | Some v \<Rightarrow> Inr v)"

definition pmap_keys :: "('k \<times> 'v) list \<Rightarrow> 'k list" where
  "pmap_keys m = remdups (map fst m)"

definition pmap_values :: "('k \<times> 'v) list \<Rightarrow> 'v list" where
  "pmap_values m = remdups (map (\<lambda>key. the (map_of m key)) (pmap_keys m))"

text \<open>\<^verbatim>\<open>pmap_merge(a, b)\<close>: the bindings of \<^verbatim>\<open>b\<close> are added to \<^verbatim>\<open>a\<close>, replacing the
  binding of a key that \<^verbatim>\<open>a\<close> has already.\<close>

definition pmap_merge :: "('k \<times> 'v) list \<Rightarrow> ('k \<times> 'v) list \<Rightarrow> ('k \<times> 'v) list" where
  "pmap_merge a b = b @ a"

section \<open>Clock\<close>

text \<open>\<^verbatim>\<open>high_level/protocols/rlmd/helpers.py\<close>, lines 11 to 31.\<close>

definition get_slot_from_time :: "int \<Rightarrow> NodeState \<Rightarrow> int result" where
  "get_slot_from_time time node_state =
     py_floordiv time (4 * delta (configuration (common node_state)))"

definition get_phase_from_time :: "int \<Rightarrow> NodeState \<Rightarrow> NodePhase result" where
  "get_phase_from_time time node_state =
     bind (py_mod time (4 * delta (configuration (common node_state)))) (\<lambda>time_in_slot.
       if time_in_slot \<ge> 3 * delta (configuration (common node_state)) then Inr MERGE
       else if time_in_slot \<ge> 2 * delta (configuration (common node_state)) then Inr CONFIRM
       else if time_in_slot \<ge> delta (configuration (common node_state)) then Inr VOTE
       else Inr PROPOSE)"

section \<open>The k-deep slot of the beacon-chain sketch\<close>

text \<open>
  \<^verbatim>\<open>pyspec/beacon_chain.py\<close>, lines 64 to 68. \<^verbatim>\<open>Slot\<close> is the 64-bit unsigned integer
  of the consensus specifications. \<^verbatim>\<open>GENESIS_SLOT\<close> is not defined in the sources; the
  specification gives the slot of genesis as 0. The function assigns the local
  \<^verbatim>\<open>k_deep_slot\<close> in both branches and ends: it has no \<^verbatim>\<open>return\<close> statement, so
  the caller receives Python's \<^verbatim>\<open>None\<close>.
\<close>

type_synonym Slot = "64 word"

definition K_DEEP_CONFIRMATION_PARAMETER :: Slot where
  "K_DEEP_CONFIRMATION_PARAMETER = 64"

definition GENESIS_SLOT :: Slot where
  "GENESIS_SLOT = 0"

definition get_k_deep_slot :: "Slot \<Rightarrow> Slot option" where
  "get_k_deep_slot slot_arg =
     (let k_deep_slot =
        (if slot_arg \<ge> K_DEEP_CONFIRMATION_PARAMETER
         then slot_arg - K_DEEP_CONFIRMATION_PARAMETER
         else GENESIS_SLOT)
      in None)"

section \<open>Vote expiry\<close>

text \<open>\<^verbatim>\<open>high_level/protocols/rlmd/helpers.py\<close>, lines 83 to 97.\<close>

definition is_GHOST_vote_expired :: "SignedVoteMessage \<Rightarrow> NodeState \<Rightarrow> bool" where
  "is_GHOST_vote_expired vote node_state =
     (VoteMessage.slot (message vote) + eta (configuration (common node_state))
        < current_slot (common node_state))"

definition filter_out_expired_GHOST_votes ::
    "SignedVoteMessage list \<Rightarrow> NodeState \<Rightarrow> SignedVoteMessage list" where
  "filter_out_expired_GHOST_votes votes_arg node_state =
     pset_filter (\<lambda>vote. is_GHOST_vote_expired vote node_state) votes_arg"

section \<open>Slashing detector\<close>

text \<open>\<^verbatim>\<open>high_level/common/ffg.py\<close>, lines 208 to 245. A comparison of Python pairs is
  lexicographic, as \<open><\<close> on pairs is here.\<close>

definition are_equivocating_votes ::
    "Stubs \<Rightarrow> SignedVoteMessage \<Rightarrow> SignedVoteMessage \<Rightarrow> bool" where
  "are_equivocating_votes st vote1 vote2 =
     (verify_vote_signature st vote1 \<and>
      verify_vote_signature st vote2 \<and>
      sender vote1 = sender vote2 \<and>
      vote1 \<noteq> vote2 \<and>
      chkp_slot (ffg_target (message vote1)) = chkp_slot (ffg_target (message vote2)))"

definition does_first_vote_surround_second_vote ::
    "Stubs \<Rightarrow> SignedVoteMessage \<Rightarrow> SignedVoteMessage \<Rightarrow> bool" where
  "does_first_vote_surround_second_vote st vote1 vote2 =
     (verify_vote_signature st vote1 \<and>
      verify_vote_signature st vote2 \<and>
      sender vote1 = sender vote2 \<and>
      (chkp_slot (ffg_source (message vote1)), block_slot (ffg_source (message vote1)))
        < (chkp_slot (ffg_source (message vote2)), block_slot (ffg_source (message vote2))) \<and>
      chkp_slot (ffg_target (message vote2)) < chkp_slot (ffg_target (message vote1)))"

definition is_slashable_offence ::
    "Stubs \<Rightarrow> SignedVoteMessage \<Rightarrow> SignedVoteMessage \<Rightarrow> bool" where
  "is_slashable_offence st vote1 vote2 =
     (are_equivocating_votes st vote1 vote2 \<or>
      does_first_vote_surround_second_vote st vote1 vote2 \<or>
      does_first_vote_surround_second_vote st vote2 vote1)"

definition get_slashabe_nodes :: "Stubs \<Rightarrow> SignedVoteMessage list \<Rightarrow> NodeIdentity list" where
  "get_slashabe_nodes st vote_view =
     pset_map_to_pset (\<lambda>vote. sender vote)
       (pset_filter
          (\<lambda>vote1. \<not> pset_is_empty
             (pset_filter (\<lambda>vote2. is_slashable_offence st vote1 vote2) vote_view))
          vote_view)"

text \<open>The pairwise offence as the specification words it (section 4.7): no mention of
  signatures.\<close>

definition spec_equivocation :: "SignedVoteMessage \<Rightarrow> SignedVoteMessage \<Rightarrow> bool" where
  "spec_equivocation v1 v2 =
     (sender v1 = sender v2 \<and> v1 \<noteq> v2 \<and>
      chkp_slot (ffg_target (message v1)) = chkp_slot (ffg_target (message v2)))"

definition spec_surround :: "SignedVoteMessage \<Rightarrow> SignedVoteMessage \<Rightarrow> bool" where
  "spec_surround v1 v2 =
     (sender v1 = sender v2 \<and>
      (chkp_slot (ffg_source (message v1)), block_slot (ffg_source (message v1)))
        < (chkp_slot (ffg_source (message v2)), block_slot (ffg_source (message v2))) \<and>
      chkp_slot (ffg_target (message v2)) < chkp_slot (ffg_target (message v1)))"

definition spec_slashable_pair :: "SignedVoteMessage \<Rightarrow> SignedVoteMessage \<Rightarrow> bool" where
  "spec_slashable_pair v1 v2 =
     (spec_equivocation v1 v2 \<or> spec_surround v1 v2 \<or> spec_surround v2 v1)"

section \<open>Block DAG\<close>

text \<open>
  \<^verbatim>\<open>high_level/common/common.py\<close>. \<^verbatim>\<open>is_ancestor_descendant_relationship\<close> is in the
  sources as \<^verbatim>\<open>ga_based/helpers.py\<close>, lines 129 to 145. The two walks along the parent links
  are recursions that need not end (nothing in a view forbids a cycle of parent hashes):
  the walk itself is a partial function, \<open>None\<close> where it never returns, and the function
  of the source raises \<open>RecursionError\<close> there.
\<close>

definition genesis_checkpoint :: "Stubs \<Rightarrow> CommonNodeState \<Rightarrow> Checkpoint" where
  "genesis_checkpoint st node_state =
     \<lparr>block_hash = block_hash_of st (genesis (configuration node_state)),
      chkp_slot = 0, block_slot = 0\<rparr>"

definition has_block_hash :: "Hash \<Rightarrow> CommonNodeState \<Rightarrow> bool" where
  "has_block_hash h node_state = pmap_has (view_blocks node_state) h"

definition get_block_from_hash :: "Hash \<Rightarrow> CommonNodeState \<Rightarrow> Block result" where
  "get_block_from_hash h node_state = pmap_get (view_blocks node_state) h"

definition has_parent :: "Block \<Rightarrow> CommonNodeState \<Rightarrow> bool" where
  "has_parent block node_state = has_block_hash (parent_hash block) node_state"

definition get_parent :: "Block \<Rightarrow> CommonNodeState \<Rightarrow> Block result" where
  "get_parent block node_state = get_block_from_hash (parent_hash block) node_state"

partial_function (option) is_complete_chain_walk ::
    "Block \<Rightarrow> CommonNodeState \<Rightarrow> bool result option" where
  "is_complete_chain_walk block node_state =
     (if block = genesis (configuration node_state) then Some (Inr True)
      else if \<not> has_parent block node_state then Some (Inr False)
      else (case get_parent block node_state of
              Inl e \<Rightarrow> Some (Inl e)
            | Inr p \<Rightarrow> is_complete_chain_walk p node_state))"

definition outcome :: "'a result option \<Rightarrow> 'a result" where
  "outcome r = (case r of None \<Rightarrow> Inl RecursionError | Some x \<Rightarrow> x)"

definition is_complete_chain :: "Block \<Rightarrow> CommonNodeState \<Rightarrow> bool result" where
  "is_complete_chain block node_state = outcome (is_complete_chain_walk block node_state)"

partial_function (option) is_ancestor_descendant_walk ::
    "Block \<Rightarrow> Block \<Rightarrow> CommonNodeState \<Rightarrow> bool result option" where
  "is_ancestor_descendant_walk ancestor descendant node_state =
     (if ancestor = descendant then Some (Inr True)
      else if descendant = genesis (configuration node_state) then Some (Inr False)
      else if \<not> has_parent descendant node_state then Some (Inr False)
      else (case get_parent descendant node_state of
              Inl e \<Rightarrow> Some (Inl e)
            | Inr p \<Rightarrow> is_ancestor_descendant_walk ancestor p node_state))"


definition is_ancestor_descendant_relationship ::
    "Block \<Rightarrow> Block \<Rightarrow> CommonNodeState \<Rightarrow> bool result" where
  "is_ancestor_descendant_relationship ancestor descendant node_state =
     outcome (is_ancestor_descendant_walk ancestor descendant node_state)"

text \<open>\<^verbatim>\<open>validator_set_weight\<close> looks the balances up for the members of
  \<^verbatim>\<open>pset_intersection(pmap_keys(validatorBalances), validators)\<close> only, which are keys of
  the map: the lookup cannot raise, and \<open>the\<close> is applied to \<open>Some\<close> only.\<close>

definition pset_intersection :: "'a list \<Rightarrow> 'a list \<Rightarrow> 'a list" where
  "pset_intersection a b = filter (\<lambda>x. x \<in> set b) a"

definition pset_map :: "('a \<Rightarrow> 'b) \<Rightarrow> 'a list \<Rightarrow> 'b list" where
  "pset_map f s = map f s"

definition pset_sum :: "int list \<Rightarrow> int" where
  "pset_sum s = sum_list s"

definition pset_add :: "'a list \<Rightarrow> 'a \<Rightarrow> 'a list" where
  "pset_add s x = (if x \<in> set s then s else s @ [x])"

definition is_validator :: "NodeIdentity \<Rightarrow> ValidatorBalances \<Rightarrow> bool" where
  "is_validator node validatorBalances = pmap_has validatorBalances node"

definition validator_set_weight :: "NodeIdentity list \<Rightarrow> ValidatorBalances \<Rightarrow> int" where
  "validator_set_weight validators validatorBalances =
     pset_sum
       (pset_map (\<lambda>v. the (map_of validatorBalances v))
          (pset_intersection (pmap_keys validatorBalances) validators))"

section \<open>FFG: justification and finalization\<close>

text \<open>\<^verbatim>\<open>high_level/common/ffg.py\<close>, lines 10 to 205. \<^verbatim>\<open>pset_map\<close> collects the images with
  their multiplicity (the helper that returns a set is \<^verbatim>\<open>pset_map_to_pset\<close>).\<close>

definition get_set_FFG_targets :: "SignedVoteMessage list \<Rightarrow> Checkpoint list" where
  "get_set_FFG_targets votes_arg =
     pset_map_to_pset (\<lambda>vote. ffg_target (message vote)) votes_arg"

definition valid_FFG_vote :: "Stubs \<Rightarrow> SignedVoteMessage \<Rightarrow> CommonNodeState \<Rightarrow> bool result" where
  "valid_FFG_vote st vote node_state =
     pand (Inr (verify_vote_signature st vote))
    (pand (bind (get_block_from_hash (head_hash (message vote)) node_state) (\<lambda>head_block.
             Inr (is_validator (sender vote)
                    (get_validator_set_for_slot st head_block
                       (VoteMessage.slot (message vote)) node_state))))
    (pand (bind (get_block_from_hash (block_hash (ffg_source (message vote))) node_state)
             (\<lambda>source_block.
           bind (get_block_from_hash (block_hash (ffg_target (message vote))) node_state)
             (\<lambda>target_block.
           is_ancestor_descendant_relationship source_block target_block node_state)))
    (pand (Inr (chkp_slot (ffg_source (message vote)) < chkp_slot (ffg_target (message vote))))
    (pand (Inr (has_block_hash (block_hash (ffg_source (message vote))) node_state))
    (pand (bind (get_block_from_hash (block_hash (ffg_source (message vote))) node_state)
             (\<lambda>source_block.
           Inr (slot source_block = block_slot (ffg_source (message vote)))))
    (pand (Inr (has_block_hash (block_hash (ffg_target (message vote))) node_state))
          (bind (get_block_from_hash (block_hash (ffg_target (message vote))) node_state)
             (\<lambda>target_block.
           Inr (slot target_block = block_slot (ffg_target (message vote)))))))))))"

definition por :: "bool result \<Rightarrow> bool result \<Rightarrow> bool result" where
  "por a b = (case a of Inl e \<Rightarrow> Inl e | Inr x \<Rightarrow> (if x then Inr True else b))"

definition pnot :: "bool result \<Rightarrow> bool result" where
  "pnot a = (case a of Inl e \<Rightarrow> Inl e | Inr x \<Rightarrow> Inr (\<not> x))"

lemma pand_cong [fundef_cong]:
  "a = a' \<Longrightarrow> (a' = Inr True \<Longrightarrow> b = b') \<Longrightarrow> pand a b = pand a' b'"
  by (auto simp: pand_def split: sum.splits)

lemma por_cong [fundef_cong]:
  "a = a' \<Longrightarrow> (a' = Inr False \<Longrightarrow> b = b') \<Longrightarrow> por a b = por a' b'"
  by (auto simp: por_def split: sum.splits)

lemma bind_cong [fundef_cong]:
  "m = m' \<Longrightarrow> (\<And>x. m' = Inr x \<Longrightarrow> f x = f' x) \<Longrightarrow> bind m f = bind m' f'"
  by (auto simp: bind_def split: sum.splits)

lemma pset_filter_r_cong [fundef_cong]:
  "xs = ys \<Longrightarrow> (\<And>x. x \<in> set ys \<Longrightarrow> p x = q x) \<Longrightarrow> pset_filter_r p xs = pset_filter_r q ys"
  by (induction ys arbitrary: xs) (auto split: sum.splits)

lemma pand_True_iff: "pand a b = Inr True \<longleftrightarrow> a = Inr True \<and> b = Inr True"
  by (auto simp: pand_def split: sum.splits)

lemma valid_FFG_vote_slots:
  "valid_FFG_vote st vote ns = Inr True \<Longrightarrow>
     chkp_slot (ffg_source (message vote)) < chkp_slot (ffg_target (message vote))"
  by (simp add: valid_FFG_vote_def pand_True_iff)

lemma length_filter_strict:
  "x \<in> set xs \<Longrightarrow> \<not> P x \<Longrightarrow> Q x \<Longrightarrow> (\<And>y. P y \<Longrightarrow> Q y) \<Longrightarrow>
     length (filter P xs) < length (filter Q xs)"
proof (induction xs)
  case Nil
  then show ?case by simp
next
  case (Cons a xs)
  have le: "length (filter P xs) \<le> length (filter Q xs)"
    using Cons.prems(4) by (induction xs) auto
  show ?case
  proof (cases "x = a")
    case True
    then show ?thesis using Cons.prems le by simp
  next
    case False
    then have "length (filter P xs) < length (filter Q xs)"
      using Cons by simp
    then show ?thesis using Cons.prems(4) by auto
  qed
qed

text \<open>
  In the source \<^verbatim>\<open>is_justified_checkpoint\<close> calls
  \<^verbatim>\<open>get_validators_in_FFG_support_of_checkpoint_justification\<close>, which calls
  \<^verbatim>\<open>filter_out_FFG_votes_not_in_FFG_support_of_checkpoint_justification\<close>, which calls
  \<^verbatim>\<open>is_FFG_vote_in_support_of_checkpoint_justification\<close> on each vote, which calls
  \<^verbatim>\<open>is_justified_checkpoint\<close> on the source of the vote. Here \<open>is_justified_checkpoint\<close>
  is defined first, with the bodies of the three other functions written out in its own;
  the three functions are then defined from it, and \<open>is_justified_checkpoint_unfold\<close>
  states its body in terms of them, as the source has it.

  The votes of the view whose target checkpoint slot is at most \<open>s\<close>: their number is the
  measure of the recursion.
\<close>

definition votes_up_to :: "CommonNodeState \<Rightarrow> int \<Rightarrow> SignedVoteMessage list" where
  "votes_up_to node_state s =
     filter (\<lambda>vote. chkp_slot (ffg_target (message vote)) \<le> s) (view_votes node_state)"

function is_justified_checkpoint :: "Stubs \<Rightarrow> Checkpoint \<Rightarrow> CommonNodeState \<Rightarrow> bool result" where
  "is_justified_checkpoint st checkpoint node_state =
     (if checkpoint = genesis_checkpoint st node_state then Inr True
      else
        bind (por (Inr (\<not> has_block_hash (block_hash checkpoint) node_state))
                (pnot (bind (get_block_from_hash (block_hash checkpoint) node_state) (\<lambda>b.
                         is_complete_chain b node_state))))
          (\<lambda>give_up.
        if give_up then Inr False
        else
          bind (get_block_from_hash (block_hash checkpoint) node_state) (\<lambda>checkpoint_block.
          let validatorBalances =
                get_validator_set_for_slot st checkpoint_block (block_slot checkpoint) node_state
          in
          bind (bind (pset_filter_r
                  (\<lambda>vote.
                     pand (valid_FFG_vote st vote node_state)
                    (pand (Inr (chkp_slot (ffg_target (message vote)) = chkp_slot checkpoint))
                    (pand (bind (get_block_from_hash (block_hash checkpoint) node_state)
                             (\<lambda>a.
                           bind (get_block_from_hash
                                   (block_hash (ffg_target (message vote))) node_state)
                             (\<lambda>d.
                           is_ancestor_descendant_relationship a d node_state)))
                    (pand (bind (get_block_from_hash
                                   (block_hash (ffg_source (message vote))) node_state)
                             (\<lambda>a.
                           bind (get_block_from_hash (block_hash checkpoint) node_state)
                             (\<lambda>d.
                           is_ancestor_descendant_relationship a d node_state)))
                          (is_justified_checkpoint st (ffg_source (message vote)) node_state)))))
                  (view_votes node_state))
                 (\<lambda>supporting. Inr (pset_map_to_pset (\<lambda>vote. sender vote) supporting)))
            (\<lambda>validators.
          let FFG_support_weight = validator_set_weight validators validatorBalances;
              tot_validator_set_weight =
                validator_set_weight (pmap_keys validatorBalances) validatorBalances
          in Inr (FFG_support_weight * 3 \<ge> tot_validator_set_weight * 2)))))"
  by pat_completeness auto
termination
proof (relation "measure (\<lambda>(st, c, ns). length (votes_up_to ns (chkp_slot c)))", goal_cases)
  case 1
  show ?case by simp
next
  case (2 st checkpoint node_state give_up cb vb vote)
  have "chkp_slot (ffg_source (message vote)) < chkp_slot checkpoint"
    using valid_FFG_vote_slots [OF 2(7)] 2(8) by simp
  then have "length (votes_up_to node_state (chkp_slot (ffg_source (message vote))))
      < length (votes_up_to node_state (chkp_slot checkpoint))"
    unfolding votes_up_to_def
    using 2(6,8) by (intro length_filter_strict [of vote]) auto
  then show ?case by simp
qed

declare is_justified_checkpoint.simps [simp del]

definition is_FFG_vote_in_support_of_checkpoint_justification ::
    "Stubs \<Rightarrow> SignedVoteMessage \<Rightarrow> Checkpoint \<Rightarrow> CommonNodeState \<Rightarrow> bool result" where
  "is_FFG_vote_in_support_of_checkpoint_justification st vote checkpoint node_state =
     pand (valid_FFG_vote st vote node_state)
    (pand (Inr (chkp_slot (ffg_target (message vote)) = chkp_slot checkpoint))
    (pand (bind (get_block_from_hash (block_hash checkpoint) node_state) (\<lambda>a.
           bind (get_block_from_hash (block_hash (ffg_target (message vote))) node_state) (\<lambda>d.
           is_ancestor_descendant_relationship a d node_state)))
    (pand (bind (get_block_from_hash (block_hash (ffg_source (message vote))) node_state) (\<lambda>a.
           bind (get_block_from_hash (block_hash checkpoint) node_state) (\<lambda>d.
           is_ancestor_descendant_relationship a d node_state)))
          (is_justified_checkpoint st (ffg_source (message vote)) node_state))))"

definition filter_out_FFG_votes_not_in_FFG_support_of_checkpoint_justification ::
    "Stubs \<Rightarrow> SignedVoteMessage list \<Rightarrow> Checkpoint \<Rightarrow> CommonNodeState
       \<Rightarrow> SignedVoteMessage list result" where
  "filter_out_FFG_votes_not_in_FFG_support_of_checkpoint_justification st votes_arg checkpoint
       node_state =
     pset_filter_r
       (\<lambda>vote. is_FFG_vote_in_support_of_checkpoint_justification st vote checkpoint node_state)
       votes_arg"

definition get_validators_in_FFG_support_of_checkpoint_justification ::
    "Stubs \<Rightarrow> SignedVoteMessage list \<Rightarrow> Checkpoint \<Rightarrow> CommonNodeState
       \<Rightarrow> NodeIdentity list result" where
  "get_validators_in_FFG_support_of_checkpoint_justification st votes_arg checkpoint node_state =
     bind (filter_out_FFG_votes_not_in_FFG_support_of_checkpoint_justification st votes_arg
             checkpoint node_state)
       (\<lambda>supporting. Inr (pset_map_to_pset (\<lambda>vote. sender vote) supporting))"

lemma is_justified_checkpoint_unfold:
  "is_justified_checkpoint st checkpoint node_state =
     (if checkpoint = genesis_checkpoint st node_state then Inr True
      else
        bind (por (Inr (\<not> has_block_hash (block_hash checkpoint) node_state))
                (pnot (bind (get_block_from_hash (block_hash checkpoint) node_state) (\<lambda>b.
                         is_complete_chain b node_state))))
          (\<lambda>give_up.
        if give_up then Inr False
        else
          bind (get_block_from_hash (block_hash checkpoint) node_state) (\<lambda>checkpoint_block.
          let validatorBalances =
                get_validator_set_for_slot st checkpoint_block (block_slot checkpoint) node_state
          in
          bind (get_validators_in_FFG_support_of_checkpoint_justification st
                  (view_votes node_state) checkpoint node_state)
            (\<lambda>validators.
          let FFG_support_weight = validator_set_weight validators validatorBalances;
              tot_validator_set_weight =
                validator_set_weight (pmap_keys validatorBalances) validatorBalances
          in Inr (FFG_support_weight * 3 \<ge> tot_validator_set_weight * 2)))))"
  unfolding get_validators_in_FFG_support_of_checkpoint_justification_def
    filter_out_FFG_votes_not_in_FFG_support_of_checkpoint_justification_def
    is_FFG_vote_in_support_of_checkpoint_justification_def
  by (rule is_justified_checkpoint.simps)


definition filter_out_non_justified_checkpoint ::
    "Stubs \<Rightarrow> Checkpoint list \<Rightarrow> CommonNodeState \<Rightarrow> Checkpoint list result" where
  "filter_out_non_justified_checkpoint st checkpoints node_state =
     pset_filter_r (\<lambda>checkpoint. is_justified_checkpoint st checkpoint node_state) checkpoints"

definition get_justified_checkpoints :: "Stubs \<Rightarrow> CommonNodeState \<Rightarrow> Checkpoint list result" where
  "get_justified_checkpoints st node_state =
     bind (filter_out_non_justified_checkpoint st
             (get_set_FFG_targets (view_votes node_state)) node_state)
       (\<lambda>justified. Inr (pset_add justified (genesis_checkpoint st node_state)))"

fun max_from :: "('a \<Rightarrow> 'k::linorder) \<Rightarrow> 'a \<Rightarrow> 'a list \<Rightarrow> 'a" where
  "max_from key best [] = best"
| "max_from key best (x # xs) = max_from key (if key best < key x then x else best) xs"

definition pset_max :: "'a list \<Rightarrow> ('a \<Rightarrow> 'k::linorder) \<Rightarrow> 'a result" where
  "pset_max s key = (case s of [] \<Rightarrow> Inl ValueError | x # xs \<Rightarrow> Inr (max_from key x xs))"

definition get_greatest_justified_checkpoint :: "Stubs \<Rightarrow> CommonNodeState \<Rightarrow> Checkpoint result" where
  "get_greatest_justified_checkpoint st node_state =
     bind (get_justified_checkpoints st node_state)
       (\<lambda>justified. pset_max justified (\<lambda>c. (chkp_slot c, block_slot c)))"

definition is_FFG_vote_linking_to_a_checkpoint_in_next_slot ::
    "Stubs \<Rightarrow> SignedVoteMessage \<Rightarrow> Checkpoint \<Rightarrow> CommonNodeState \<Rightarrow> bool result" where
  "is_FFG_vote_linking_to_a_checkpoint_in_next_slot st vote checkpoint node_state =
     pand (valid_FFG_vote st vote node_state)
    (pand (Inr (ffg_source (message vote) = checkpoint))
          (Inr (chkp_slot (ffg_target (message vote)) = chkp_slot checkpoint + 1)))"

definition filter_out_FFG_vote_not_linking_to_a_checkpoint_in_next_slot ::
    "Stubs \<Rightarrow> Checkpoint \<Rightarrow> CommonNodeState \<Rightarrow> SignedVoteMessage list result" where
  "filter_out_FFG_vote_not_linking_to_a_checkpoint_in_next_slot st checkpoint node_state =
     pset_filter_r
       (\<lambda>vote. is_FFG_vote_linking_to_a_checkpoint_in_next_slot st vote checkpoint node_state)
       (view_votes node_state)"

definition get_validators_in_FFG_votes_linking_to_a_checkpoint_in_next_slot ::
    "Stubs \<Rightarrow> Checkpoint \<Rightarrow> CommonNodeState \<Rightarrow> NodeIdentity list result" where
  "get_validators_in_FFG_votes_linking_to_a_checkpoint_in_next_slot st checkpoint node_state =
     bind (filter_out_FFG_vote_not_linking_to_a_checkpoint_in_next_slot st checkpoint node_state)
       (\<lambda>linking. Inr (pset_map_to_pset (\<lambda>vote. sender vote) linking))"

definition is_finalized_checkpoint :: "Stubs \<Rightarrow> Checkpoint \<Rightarrow> CommonNodeState \<Rightarrow> bool result" where
  "is_finalized_checkpoint st checkpoint node_state =
     bind (is_justified_checkpoint st checkpoint node_state) (\<lambda>justified.
     if \<not> justified then Inr False
     else
       bind (get_block_from_hash (block_hash checkpoint) node_state) (\<lambda>checkpoint_block.
       let validatorBalances =
             get_validator_set_for_slot st checkpoint_block (block_slot checkpoint) node_state
       in
       bind (get_validators_in_FFG_votes_linking_to_a_checkpoint_in_next_slot st checkpoint
               node_state)
         (\<lambda>validators.
       let FFG_support_weight = validator_set_weight validators validatorBalances;
           tot_validator_set_weight =
             validator_set_weight (pmap_keys validatorBalances) validatorBalances
       in Inr (FFG_support_weight * 3 \<ge> tot_validator_set_weight * 2))))"

definition is_supermajority :: "NodeIdentity list \<Rightarrow> ValidatorBalances \<Rightarrow> bool" where
  "is_supermajority validators validatorBalances =
     (validator_set_weight validators validatorBalances * 3
        \<ge> validator_set_weight (pmap_keys validatorBalances) validatorBalances * 2)"

definition next_slot_link_senders ::
    "Stubs \<Rightarrow> Checkpoint \<Rightarrow> CommonNodeState \<Rightarrow> NodeIdentity list" where
  "next_slot_link_senders st c ns =
     pset_map_to_pset (\<lambda>vote. sender vote)
       (filter (\<lambda>vote. valid_FFG_vote st vote ns = Inr True
                  \<and> ffg_source (message vote) = c
                  \<and> chkp_slot (ffg_target (message vote)) = chkp_slot c + 1)
          (view_votes ns))"

definition link_senders ::
    "Stubs \<Rightarrow> Checkpoint \<Rightarrow> Checkpoint \<Rightarrow> CommonNodeState \<Rightarrow> NodeIdentity list" where
  "link_senders st c c' ns =
     pset_map_to_pset (\<lambda>vote. sender vote)
       (filter (\<lambda>vote. valid_FFG_vote st vote ns = Inr True
                  \<and> ffg_source (message vote) = c
                  \<and> ffg_target (message vote) = c')
          (view_votes ns))"

definition spec_finalizing_link ::
    "Stubs \<Rightarrow> Checkpoint \<Rightarrow> Checkpoint \<Rightarrow> CommonNodeState \<Rightarrow> bool" where
  "spec_finalizing_link st c c' ns =
     (is_justified_checkpoint st c' ns = Inr True
      \<and> chkp_slot c' = chkp_slot c + 1
      \<and> (case get_block_from_hash (block_hash c) ns of
            Inl e \<Rightarrow> False
          | Inr cb \<Rightarrow>
              is_supermajority (link_senders st c c' ns)
                (get_validator_set_for_slot st cb (block_slot c) ns)))"

text \<open>\<^verbatim>\<open>high_level/protocols/rlmd/helpers.py\<close>, lines 137 to 159.\<close>

definition valid_vote :: "Stubs \<Rightarrow> SignedVoteMessage \<Rightarrow> NodeState \<Rightarrow> bool result" where
  "valid_vote st vote node_state =
     pand (Inr (verify_vote_signature st vote))
    (pand (valid_FFG_vote st vote (common node_state))
    (pand (Inr (has_block_hash (head_hash (message vote)) (common node_state)))
    (pand (bind (get_block_from_hash (head_hash (message vote)) (common node_state))
             (\<lambda>head_block. is_complete_chain head_block (common node_state)))
    (pand (bind (get_block_from_hash (head_hash (message vote)) (common node_state))
             (\<lambda>head_block.
           Inr (is_validator (sender vote)
                  (get_validator_set_for_slot st head_block
                     (VoteMessage.slot (message vote)) (common node_state)))))
          (bind (get_block_from_hash (block_hash (ffg_target (message vote))) (common node_state))
             (\<lambda>target_block.
           bind (get_block_from_hash (head_hash (message vote)) (common node_state))
             (\<lambda>head_block.
           is_ancestor_descendant_relationship target_block head_block
             (common node_state))))))))"


section \<open>View merge\<close>

text \<open>\<^verbatim>\<open>high_level/common/common.py\<close>, lines 48 to 52, and
  \<^verbatim>\<open>high_level/protocols/rlmd/helpers.py\<close>, lines 176 to 182 and 322 to 338.\<close>

definition get_all_blocks :: "CommonNodeState \<Rightarrow> Block list" where
  "get_all_blocks node_state = pmap_values (view_blocks node_state)"

definition pset_merge_flatten :: "'a list list \<Rightarrow> 'a list" where
  "pset_merge_flatten s = remdups (concat s)"

definition get_votes_included_in_blocks :: "Block list \<Rightarrow> SignedVoteMessage list" where
  "get_votes_included_in_blocks blocks =
     pset_merge_flatten (pset_map (\<lambda>b. votes b) blocks)"

definition execute_view_merge :: "NodeState \<Rightarrow> NodeState" where
  "execute_view_merge node_state0 =
     (let node_state1 = node_state0\<lparr>common := (common node_state0)
            \<lparr>view_blocks := pmap_merge (view_blocks (common node_state0))
                             (buffer_blocks node_state0)\<rparr>\<rparr>;
          node_state2 = node_state1\<lparr>common := (common node_state1)
            \<lparr>view_votes := pset_merge
               (pset_merge (view_votes (common node_state1)) (buffer_votes node_state1))
               (get_votes_included_in_blocks (get_all_blocks (common node_state1)))\<rparr>\<rparr>;
          node_state3 = node_state2\<lparr>buffer_votes := pset_get_empty\<rparr>;
          node_state4 = node_state3\<lparr>buffer_blocks := pmap_get_empty\<rparr>
      in node_state4)"

text \<open>
  \<^verbatim>\<open>ga_based/helpers.py\<close>, lines 676 to 692. The node state of this module is a
  \<^verbatim>\<open>PRecord\<close> whose declaration is not part of the sources. A \<^verbatim>\<open>PRecord\<close> holds a value
  for each of its declared fields, \<^verbatim>\<open>r.name\<close> reads a field and
  \<^verbatim>\<open>r.set(name=value)\<close> returns the record with the field replaced, and raises
  \<^verbatim>\<open>AttributeError\<close> for a name that is not a declared field. The record is modelled as
  the association list of its fields, whatever fields the declaration has.
\<close>

datatype ga_value =
    VBlocks BlockView
  | VVotes "SignedVoteMessage list"
  | VInt int
  | VOther

type_synonym GaNodeState = "(string \<times> ga_value) list"

definition precord_get :: "GaNodeState \<Rightarrow> string \<Rightarrow> ga_value result" where
  "precord_get r name =
     (case map_of r name of None \<Rightarrow> Inl AttributeError | Some v \<Rightarrow> Inr v)"

definition precord_set :: "GaNodeState \<Rightarrow> string \<Rightarrow> ga_value \<Rightarrow> GaNodeState result" where
  "precord_set r name v =
     (if map_of r name = None then Inl AttributeError
      else Inr (map (\<lambda>(n, old). if n = name then (n, v) else (n, old)) r))"

definition as_blocks :: "ga_value \<Rightarrow> BlockView result" where
  "as_blocks v = (case v of VBlocks b \<Rightarrow> Inr b | _ \<Rightarrow> Inl TypeError)"

definition as_votes :: "ga_value \<Rightarrow> SignedVoteMessage list result" where
  "as_votes v = (case v of VVotes vs \<Rightarrow> Inr vs | _ \<Rightarrow> Inl TypeError)"

definition ga_execute_view_merge :: "GaNodeState \<Rightarrow> GaNodeState result" where
  "ga_execute_view_merge node_state0 =
     bind (bind (precord_get node_state0 ''blocks'') as_blocks) (\<lambda>blocks0.
     bind (bind (precord_get node_state0 ''buffer_blocks'') as_blocks) (\<lambda>buffer_blocks0.
     bind (precord_set node_state0 ''blocks'' (VBlocks (pmap_merge blocks0 buffer_blocks0)))
       (\<lambda>node_state1.
     bind (bind (precord_get node_state1 ''votes'') as_votes) (\<lambda>votes1.
     bind (bind (precord_get node_state1 ''buffer_votes'') as_votes) (\<lambda>buffer_votes1.
     bind (bind (precord_get node_state1 ''blocks'') as_blocks) (\<lambda>blocks1.
     bind (precord_set node_state1 ''view_vote''
             (VVotes (pset_merge (pset_merge votes1 buffer_votes1)
                        (get_votes_included_in_blocks (pmap_values blocks1)))))
       (\<lambda>node_state2.
     bind (precord_set node_state2 ''buffer_vote'' (VVotes pset_get_empty)) (\<lambda>node_state3.
     precord_set node_state3 ''buffer_blocks'' (VBlocks pmap_get_empty)))))))))"

section \<open>Fork choice\<close>

text \<open>\<^verbatim>\<open>high_level/protocols/rlmd/helpers.py\<close>, lines 34 to 47, 100 to 134, 162 to 166 and
  236 to 319. \<open>pset_map_r\<close> is \<^verbatim>\<open>pset_map\<close> for a function that can raise, \<open>pset_max_r\<close>
  is \<^verbatim>\<open>pset_max\<close> for a key that can raise: Python's \<^verbatim>\<open>max\<close> computes the key of each
  element once, in iteration order, and keeps the first element of maximal key.\<close>

fun pset_map_r :: "('a \<Rightarrow> 'b result) \<Rightarrow> 'a list \<Rightarrow> 'b list result" where
  "pset_map_r f [] = Inr []"
| "pset_map_r f (x # xs) =
     (case f x of
        Inl e \<Rightarrow> Inl e
      | Inr y \<Rightarrow> (case pset_map_r f xs of Inl e \<Rightarrow> Inl e | Inr ys \<Rightarrow> Inr (y # ys)))"

fun max_from_r :: "('a \<Rightarrow> int result) \<Rightarrow> 'a \<Rightarrow> int \<Rightarrow> 'a list \<Rightarrow> 'a result" where
  "max_from_r key best best_key [] = Inr best"
| "max_from_r key best best_key (x # xs) =
     (case key x of
        Inl e \<Rightarrow> Inl e
      | Inr x_key \<Rightarrow>
          (if best_key < x_key then max_from_r key x x_key xs
           else max_from_r key best best_key xs))"

definition pset_max_r :: "'a list \<Rightarrow> ('a \<Rightarrow> int result) \<Rightarrow> 'a result" where
  "pset_max_r s key =
     (case s of
        [] \<Rightarrow> Inl ValueError
      | x # xs \<Rightarrow> (case key x of Inl e \<Rightarrow> Inl e | Inr x_key \<Rightarrow> max_from_r key x x_key xs))"

definition pmap_set :: "('k \<times> 'v) list \<Rightarrow> 'k \<Rightarrow> 'v \<Rightarrow> ('k \<times> 'v) list" where
  "pmap_set m key v = (key, v) # m"

definition filter_out_GHOST_votes_non_descendant_of_block ::
    "Block \<Rightarrow> SignedVoteMessage list \<Rightarrow> NodeState \<Rightarrow> SignedVoteMessage list result" where
  "filter_out_GHOST_votes_non_descendant_of_block block votes_arg node_state =
     pset_filter_r
       (\<lambda>vote.
          pand (Inr (has_block_hash (head_hash (message vote)) (common node_state)))
               (bind (get_block_from_hash (head_hash (message vote)) (common node_state))
                  (\<lambda>head_block.
                is_ancestor_descendant_relationship block head_block (common node_state))))
       votes_arg"

definition filter_out_non_LMD_GHOST_votes :: "SignedVoteMessage list \<Rightarrow> SignedVoteMessage list" where
  "filter_out_non_LMD_GHOST_votes votes_arg =
     pmap_values
       (fold
          (\<lambda>vote lmd.
             (case map_of lmd (sender vote) of
                None \<Rightarrow> pmap_set lmd (sender vote) vote
              | Some latest \<Rightarrow>
                  if VoteMessage.slot (message vote) > VoteMessage.slot (message latest)
                  then pmap_set lmd (sender vote) vote
                  else lmd))
          votes_arg pmap_get_empty)"

definition is_equivocating_GHOST_vote :: "SignedVoteMessage \<Rightarrow> NodeState \<Rightarrow> bool" where
  "is_equivocating_GHOST_vote vote node_state =
     (\<not> pset_is_empty
        (pset_filter
           (\<lambda>vote_check.
              VoteMessage.slot (message vote_check) = VoteMessage.slot (message vote) \<and>
              sender vote_check = sender vote \<and>
              head_hash (message vote_check) \<noteq> head_hash (message vote))
           (view_votes (common node_state))))"

definition filter_out_GHOST_equivocating_votes ::
    "SignedVoteMessage list \<Rightarrow> NodeState \<Rightarrow> SignedVoteMessage list" where
  "filter_out_GHOST_equivocating_votes votes_arg node_state =
     pset_filter (\<lambda>vote. \<not> is_equivocating_GHOST_vote vote node_state) votes_arg"

definition filter_out_invalid_votes ::
    "Stubs \<Rightarrow> SignedVoteMessage list \<Rightarrow> NodeState \<Rightarrow> SignedVoteMessage list result" where
  "filter_out_invalid_votes st votes_arg node_state =
     pset_filter_r (\<lambda>vote. valid_vote st vote node_state) votes_arg"

definition get_GHOST_weight ::
    "Block \<Rightarrow> SignedVoteMessage list \<Rightarrow> NodeState \<Rightarrow> ValidatorBalances \<Rightarrow> int result" where
  "get_GHOST_weight block votes_arg node_state validatorBalances =
     bind (pset_filter_r
             (\<lambda>vote.
                pand (Inr (has_block_hash (head_hash (message vote)) (common node_state)))
               (pand (bind (get_block_from_hash (head_hash (message vote)) (common node_state))
                        (\<lambda>head_block.
                      is_ancestor_descendant_relationship block head_block
                        (common node_state)))
                     (Inr (is_validator (sender vote) validatorBalances))))
             votes_arg)
       (\<lambda>supporting.
     bind (pset_map_r (\<lambda>vote. pmap_get validatorBalances (sender vote)) supporting)
       (\<lambda>balances. Inr (pset_sum balances)))"

definition get_children :: "Stubs \<Rightarrow> Block \<Rightarrow> NodeState \<Rightarrow> Block list" where
  "get_children st block node_state =
     pset_filter (\<lambda>b. parent_hash b = block_hash_of st block)
       (get_all_blocks (common node_state))"

partial_function (option) find_head_from_walk ::
    "Stubs \<Rightarrow> Block \<Rightarrow> SignedVoteMessage list \<Rightarrow> NodeState \<Rightarrow> ValidatorBalances
       \<Rightarrow> Block result option" where
  "find_head_from_walk st block votes_arg node_state validatorBalances =
     (let children = get_children st block node_state in
      if length children = 0 then Some (Inr block)
      else
        (case pset_max_r children
                (\<lambda>child. get_GHOST_weight child votes_arg node_state validatorBalances) of
           Inl e \<Rightarrow> Some (Inl e)
         | Inr best_child \<Rightarrow>
             find_head_from_walk st best_child votes_arg node_state validatorBalances))"

definition find_head_from ::
    "Stubs \<Rightarrow> Block \<Rightarrow> SignedVoteMessage list \<Rightarrow> NodeState \<Rightarrow> ValidatorBalances
       \<Rightarrow> Block result" where
  "find_head_from st block votes_arg node_state validatorBalances =
     outcome (find_head_from_walk st block votes_arg node_state validatorBalances)"

definition get_head :: "Stubs \<Rightarrow> NodeState \<Rightarrow> Block result" where
  "get_head st node_state =
     bind (get_greatest_justified_checkpoint st (common node_state)) (\<lambda>justified.
     bind (get_block_from_hash (block_hash justified) (common node_state)) (\<lambda>justified_block.
     bind (filter_out_invalid_votes st (view_votes (common node_state)) node_state)
       (\<lambda>valid_votes.
     bind (filter_out_GHOST_votes_non_descendant_of_block justified_block
             (filter_out_non_LMD_GHOST_votes
                (filter_out_expired_GHOST_votes
                   (filter_out_GHOST_equivocating_votes valid_votes node_state)
                   node_state))
             node_state)
       (\<lambda>relevant_votes.
     let validatorBalances =
           get_validator_set_for_slot st justified_block (current_slot (common node_state))
             (common node_state)
     in find_head_from st justified_block relevant_votes node_state validatorBalances))))"

text \<open>The total weight of the relevant votes, as \<^verbatim>\<open>get_head\<close> of
  \<^verbatim>\<open>ga_based/helpers.py\<close> (lines 657 to 665) computes it: the balances of the validators
  among the senders.\<close>

definition total_vote_weight :: "SignedVoteMessage list \<Rightarrow> ValidatorBalances \<Rightarrow> int" where
  "total_vote_weight relevant_votes validatorBalances =
     validator_set_weight (pset_map_to_pset (\<lambda>vote. sender vote) relevant_votes)
       validatorBalances"

text \<open>One step of the walk of \<open>find_head_from\<close>: \<open>child\<close> is a child of \<open>block\<close>, the
  weights of all children of \<open>block\<close> are computed, and none is greater than the weight
  of \<open>child\<close>.\<close>

definition heaviest_child ::
    "Stubs \<Rightarrow> SignedVoteMessage list \<Rightarrow> NodeState \<Rightarrow> ValidatorBalances \<Rightarrow> Block \<Rightarrow> Block
       \<Rightarrow> bool" where
  "heaviest_child st votes_arg node_state validatorBalances block child =
     (child \<in> set (get_children st block node_state)
      \<and> (\<exists>w. get_GHOST_weight child votes_arg node_state validatorBalances = Inr w
            \<and> (\<forall>c \<in> set (get_children st block node_state).
                  \<exists>w'. get_GHOST_weight c votes_arg node_state validatorBalances = Inr w'
                       \<and> w' \<le> w)))"

text \<open>Growth of a view: the configuration is the same, every block of \<open>ns\<close> is bound to
  the same hash in \<open>ns'\<close>, and every vote of \<open>ns\<close> is a vote of \<open>ns'\<close>.\<close>

definition view_extends :: "CommonNodeState \<Rightarrow> CommonNodeState \<Rightarrow> bool" where
  "view_extends ns ns' =
     (configuration ns' = configuration ns
      \<and> map_of (view_blocks ns) \<subseteq>\<^sub>m map_of (view_blocks ns')
      \<and> set (view_votes ns) \<subseteq> set (view_votes ns'))"

definition nonnegative_balances :: "ValidatorBalances \<Rightarrow> bool" where
  "nonnegative_balances validatorBalances = list_all (\<lambda>(n, w). 0 \<le> w) validatorBalances"

section \<open>Fork choice of \<^verbatim>\<open>ga_based\<close>\<close>

text \<open>
  \<^verbatim>\<open>ga_based/helpers.py\<close>, lines 57 to 91, 129 to 145 and 578 to 623. The functions of
  this module read the fields of their node state by name; the state is the record of the
  fields that \<^verbatim>\<open>ga_based/helpers.py\<close> reads, each with the prefix \<open>ga_\<close>. The helpers
  of the block DAG are those of the section on the block DAG, on \<^verbatim>\<open>node_state.blocks\<close>.
\<close>

record GaState =
  ga_configuration :: Configuration
  ga_time :: int
  ga_blocks :: BlockView
  ga_votes :: "SignedVoteMessage list"
  ga_buffer_blocks :: BlockView
  ga_buffer_votes :: "SignedVoteMessage list"
  ga_vote_receival_times :: "(SignedVoteMessage \<times> int) list"
  ga_greatest_justified_checkpoint :: Checkpoint
  ga_highest_candidate_block :: Block

definition ga_has_block_hash :: "Hash \<Rightarrow> GaState \<Rightarrow> bool" where
  "ga_has_block_hash h node_state = pmap_has (ga_blocks node_state) h"

definition ga_get_block_from_hash :: "Hash \<Rightarrow> GaState \<Rightarrow> Block result" where
  "ga_get_block_from_hash h node_state = pmap_get (ga_blocks node_state) h"

definition ga_has_parent :: "Block \<Rightarrow> GaState \<Rightarrow> bool" where
  "ga_has_parent block node_state = ga_has_block_hash (parent_hash block) node_state"

definition ga_get_parent :: "Block \<Rightarrow> GaState \<Rightarrow> Block result" where
  "ga_get_parent block node_state = ga_get_block_from_hash (parent_hash block) node_state"

definition ga_get_all_blocks :: "GaState \<Rightarrow> Block list" where
  "ga_get_all_blocks node_state = pmap_values (ga_blocks node_state)"

partial_function (option) ga_is_ancestor_descendant_walk ::
    "Block \<Rightarrow> Block \<Rightarrow> GaState \<Rightarrow> bool result option" where
  "ga_is_ancestor_descendant_walk ancestor descendant node_state =
     (if ancestor = descendant then Some (Inr True)
      else if descendant = genesis (ga_configuration node_state) then Some (Inr False)
      else if \<not> ga_has_parent descendant node_state then Some (Inr False)
      else (case ga_get_parent descendant node_state of
              Inl e \<Rightarrow> Some (Inl e)
            | Inr p \<Rightarrow> ga_is_ancestor_descendant_walk ancestor p node_state))"

definition ga_is_ancestor_descendant_relationship ::
    "Block \<Rightarrow> Block \<Rightarrow> GaState \<Rightarrow> bool result" where
  "ga_is_ancestor_descendant_relationship ancestor descendant node_state =
     outcome (ga_is_ancestor_descendant_walk ancestor descendant node_state)"

definition ga_get_GHOST_weight ::
    "Block \<Rightarrow> SignedVoteMessage list \<Rightarrow> GaState \<Rightarrow> ValidatorBalances \<Rightarrow> int result" where
  "ga_get_GHOST_weight block votes_arg node_state validatorBalances =
     bind (pset_filter_r
             (\<lambda>vote.
                pand (Inr (ga_has_block_hash (head_hash (message vote)) node_state))
               (pand (bind (ga_get_block_from_hash (head_hash (message vote)) node_state)
                        (\<lambda>head_block.
                      ga_is_ancestor_descendant_relationship block head_block node_state))
                     (Inr (is_validator (sender vote) validatorBalances))))
             votes_arg)
       (\<lambda>supporting.
     bind (pset_map_r (\<lambda>vote. pmap_get validatorBalances (sender vote)) supporting)
       (\<lambda>balances. Inr (pset_sum balances)))"

definition ga_get_children :: "Stubs \<Rightarrow> Block \<Rightarrow> GaState \<Rightarrow> Block list" where
  "ga_get_children st block node_state =
     pset_filter (\<lambda>b. parent_hash b = block_hash_of st block) (ga_get_all_blocks node_state)"

text \<open>
  \<^verbatim>\<open>pset_filter(p, s)\<close> keeps the elements of the set \<open>s\<close> on which the function \<open>p\<close>
  holds: every call of the sources but one passes the function first and the set second.
  Python does not check the arguments of a call against the annotations of the
  parameters, so a call can pass a set where the function is expected and a function
  where the set is expected. \<open>pset_filter_call\<close> is \<^verbatim>\<open>pset_filter\<close> on arguments of
  either kind: it iterates over its second argument, which raises \<^verbatim>\<open>TypeError\<close> for a
  function, and calls its first argument on each element, which raises \<^verbatim>\<open>TypeError\<close>
  for a set.
\<close>

datatype 'a py_argument =
    PyFunction "'a \<Rightarrow> bool result"
  | PySet "'a list"

definition pset_filter_call :: "'a py_argument \<Rightarrow> 'a py_argument \<Rightarrow> 'a list result" where
  "pset_filter_call p s =
     (case s of
        PyFunction g \<Rightarrow> Inl TypeError
      | PySet elements \<Rightarrow>
          (case p of
             PyFunction f \<Rightarrow> pset_filter_r f elements
           | PySet q \<Rightarrow> if elements = [] then Inr [] else Inl TypeError))"

definition pset_pick_element :: "'a list \<Rightarrow> 'a result" where
  "pset_pick_element s = (case s of [] \<Rightarrow> Inl ValueError | x # xs \<Rightarrow> Inr x)"

text \<open>
  \<^verbatim>\<open>find_head_from\<close> of \<^verbatim>\<open>ga_based/helpers.py\<close>, lines 610 to 623. The call of
  \<^verbatim>\<open>pset_filter\<close> passes the set of the children first and the function second. The
  function has five parameters without default values and the recursive call passes
  four arguments: Python evaluates the arguments and then raises \<^verbatim>\<open>TypeError\<close>, before
  the body is entered, so no recursion is left in the function.
\<close>

definition ga_find_head_from ::
    "Stubs \<Rightarrow> Block \<Rightarrow> SignedVoteMessage list \<Rightarrow> GaState \<Rightarrow> ValidatorBalances \<Rightarrow> int
       \<Rightarrow> Block result" where
  "ga_find_head_from st block votes_arg node_state validatorBalances total_vote_weight_arg =
     bind (pset_filter_call
             (PySet (ga_get_children st block node_state))
             (PyFunction
                (\<lambda>child.
                   bind (ga_get_GHOST_weight child votes_arg node_state validatorBalances)
                     (\<lambda>weight.
                   bind (py_floordiv total_vote_weight_arg 2)
                     (\<lambda>half. Inr (weight > half))))))
       (\<lambda>children_with_majority_support.
     if length children_with_majority_support = 0 then Inr block
     else bind (pset_pick_element children_with_majority_support)
            (\<lambda>picked. Inl TypeError))"

text \<open>The children of a block that the specification has the walk select: those whose
  GHOST weight is greater than half of the total vote weight. This is the call of
  \<^verbatim>\<open>pset_filter\<close> of \<^verbatim>\<open>find_head_from\<close> with its two arguments in the order of the
  parameters.\<close>

definition spec_children_with_majority_support ::
    "Stubs \<Rightarrow> Block \<Rightarrow> SignedVoteMessage list \<Rightarrow> GaState \<Rightarrow> ValidatorBalances \<Rightarrow> int
       \<Rightarrow> Block list result" where
  "spec_children_with_majority_support st block votes_arg node_state validatorBalances
       total_vote_weight_arg =
     pset_filter_call
       (PyFunction
          (\<lambda>child.
             bind (ga_get_GHOST_weight child votes_arg node_state validatorBalances)
               (\<lambda>weight.
             bind (py_floordiv total_vote_weight_arg 2)
               (\<lambda>half. Inr (weight > half)))))
       (PySet (ga_get_children st block node_state))"

section \<open>Example data\<close>

definition ex_genesis :: Block where
  "ex_genesis = \<lparr>parent_hash = ''0'', slot = 0, votes = [], body = BlockBody\<rparr>"

definition ex_config :: Configuration where
  "ex_config = \<lparr>delta = 2, genesis = ex_genesis, eta = 3, k = 2\<rparr>"

definition ex_checkpoint :: "Hash \<Rightarrow> int \<Rightarrow> int \<Rightarrow> Checkpoint" where
  "ex_checkpoint h c b = \<lparr>block_hash = h, chkp_slot = c, block_slot = b\<rparr>"

definition ex_vote ::
    "NodeIdentity \<Rightarrow> int \<Rightarrow> Hash \<Rightarrow> Checkpoint \<Rightarrow> Checkpoint \<Rightarrow> SignedVoteMessage" where
  "ex_vote n s h src tgt =
     \<lparr>message = \<lparr>VoteMessage.slot = s, head_hash = h, ffg_source = src, ffg_target = tgt\<rparr>,
      signature = Signature, sender = n\<rparr>"

definition ex_common :: "int \<Rightarrow> BlockView \<Rightarrow> SignedVoteMessage list \<Rightarrow> CommonNodeState" where
  "ex_common cur blocks vs =
     \<lparr>configuration = ex_config, identity = ''N'', current_slot = cur,
      view_blocks = blocks, view_votes = vs, chava = ex_genesis\<rparr>"

definition ex_state ::
    "int \<Rightarrow> BlockView \<Rightarrow> SignedVoteMessage list \<Rightarrow> BlockView \<Rightarrow> SignedVoteMessage list
       \<Rightarrow> NodeState" where
  "ex_state cur blocks vs bblocks bvotes =
     \<lparr>common = ex_common cur blocks vs, current_phase = PROPOSE,
      buffer_votes = bvotes, buffer_blocks = bblocks\<rparr>"

definition ex_gcp :: Checkpoint where
  "ex_gcp = ex_checkpoint ''G'' 0 0"

text \<open>A vote cast in slot 0 and one cast in slot 9, seen from slot 10 with \<open>eta = 3\<close>.\<close>

definition ex_old_vote :: SignedVoteMessage where
  "ex_old_vote = ex_vote ''V1'' 0 ''G'' ex_gcp (ex_checkpoint ''G'' 1 0)"

definition ex_fresh_vote :: SignedVoteMessage where
  "ex_fresh_vote = ex_vote ''V2'' 9 ''G'' ex_gcp (ex_checkpoint ''G'' 9 0)"

text \<open>Two votes of one sender for the same target slot, and stubs that reject every
  signature.\<close>

definition ex_equiv_vote1 :: SignedVoteMessage where
  "ex_equiv_vote1 = ex_vote ''V1'' 1 ''A'' ex_gcp (ex_checkpoint ''A'' 1 1)"

definition ex_equiv_vote2 :: SignedVoteMessage where
  "ex_equiv_vote2 = ex_vote ''V1'' 1 ''B'' ex_gcp (ex_checkpoint ''B'' 1 1)"

definition ex_stubs_reject :: Stubs where
  "ex_stubs_reject =
     \<lparr>block_hash_of = (\<lambda>b. ''G''), verify_vote_signature = (\<lambda>v. False),
      get_validator_set_for_slot = (\<lambda>b s ns. [])\<rparr>"

definition ex_stubs_accept :: Stubs where
  "ex_stubs_accept =
     \<lparr>block_hash_of = (\<lambda>b. ''G''), verify_vote_signature = (\<lambda>v. True),
      get_validator_set_for_slot = (\<lambda>b s ns. [])\<rparr>"

definition ex_block_A :: Block where
  "ex_block_A = \<lparr>parent_hash = ''G'', slot = 1, votes = [], body = BlockBody\<rparr>"

definition ex_block_B :: Block where
  "ex_block_B = \<lparr>parent_hash = ''G'', slot = 2, votes = [], body = BlockBody\<rparr>"

definition ex_hash :: "Block \<Rightarrow> Hash" where
  "ex_hash b = (if slot b = 0 then ''G'' else if slot b = 1 then ''A'' else ''B'')"

definition ex_balances :: ValidatorBalances where
  "ex_balances = [(''V1'', 1), (''V2'', 2), (''V3'', 3)]"

definition ex_stubs :: Stubs where
  "ex_stubs =
     \<lparr>block_hash_of = ex_hash, verify_vote_signature = (\<lambda>v. True),
      get_validator_set_for_slot = (\<lambda>b s ns. ex_balances)\<rparr>"

definition ex_view :: BlockView where
  "ex_view = [(''G'', ex_genesis), (''A'', ex_block_A), (''B'', ex_block_B)]"

definition ex_link1 :: SignedVoteMessage where
  "ex_link1 = ex_vote ''V1'' 1 ''A'' ex_gcp (ex_checkpoint ''A'' 1 1)"

definition ex_link2 :: SignedVoteMessage where
  "ex_link2 = ex_vote ''V2'' 1 ''B'' ex_gcp (ex_checkpoint ''B'' 1 2)"

definition ex_link3 :: SignedVoteMessage where
  "ex_link3 = ex_vote ''V3'' 1 ''G'' ex_gcp (ex_checkpoint ''G'' 1 0)"

definition ex_links :: CommonNodeState where
  "ex_links = ex_common 1 ex_view [ex_link1, ex_link2, ex_link3]"

text \<open>Votes that name a block the view does not hold, and a view whose block \<open>L\<close> is
  its own parent.\<close>

definition ex_dangling_head :: SignedVoteMessage where
  "ex_dangling_head = ex_vote ''V1'' 1 ''X'' ex_gcp (ex_checkpoint ''A'' 1 1)"

definition ex_dangling_source :: SignedVoteMessage where
  "ex_dangling_source = ex_vote ''V1'' 1 ''A'' (ex_checkpoint ''X'' 0 0) (ex_checkpoint ''A'' 1 1)"

definition ex_loop :: Block where
  "ex_loop = \<lparr>parent_hash = ''L'', slot = 5, votes = [], body = BlockBody\<rparr>"

definition ex_cyclic :: CommonNodeState where
  "ex_cyclic = ex_common 6 [(''G'', ex_genesis), (''L'', ex_loop)] []"

lemmas ex_defs2 = ex_dangling_head_def ex_dangling_source_def ex_loop_def ex_cyclic_def

text \<open>A node state of \<^verbatim>\<open>ga_based\<close> with the fields the specification lists (section 3),
  holding one buffered vote; and the same state with two more fields, named as the
  assignments of \<^verbatim>\<open>execute_view_merge\<close> name them.\<close>

definition ex_ga_state :: GaNodeState where
  "ex_ga_state =
     [(''time'', VInt 7), (''configuration'', VOther), (''blocks'', VBlocks ex_view),
      (''votes'', VVotes []), (''buffer_blocks'', VBlocks []),
      (''buffer_votes'', VVotes [ex_link1]), (''vote_receival_times'', VOther),
      (''greatest_justified_checkpoint'', VOther), (''highest_candidate_block'', VOther)]"

definition ex_ga_state_wide :: GaNodeState where
  "ex_ga_state_wide = ex_ga_state @ [(''view_vote'', VVotes []), (''buffer_vote'', VVotes [])]"

text \<open>The view \<open>G \<leftarrow> A\<close>, \<open>G \<leftarrow> B\<close> with the three votes for the heads \<open>A\<close>, \<open>B\<close> and
  \<open>G\<close>.\<close>

definition ex_fork :: NodeState where
  "ex_fork = ex_state 1 ex_view [ex_link1, ex_link2, ex_link3] [] []"

text \<open>Three votes that justify the checkpoint \<open>(A, 1, 1)\<close>; a state that holds them in
  its vote buffer; a state that holds them in its view and whose block buffer binds the
  hash \<open>A\<close> to another block; and a state that holds them in its view and a vote for an
  unknown head in its buffer.\<close>

definition ex_just2 :: SignedVoteMessage where
  "ex_just2 = ex_vote ''V2'' 1 ''A'' ex_gcp (ex_checkpoint ''A'' 1 1)"

definition ex_just3 :: SignedVoteMessage where
  "ex_just3 = ex_vote ''V3'' 1 ''A'' ex_gcp (ex_checkpoint ''A'' 1 1)"

definition ex_block_A7 :: Block where
  "ex_block_A7 = \<lparr>parent_hash = ''G'', slot = 7, votes = [], body = BlockBody\<rparr>"

definition ex_merge_grow :: NodeState where
  "ex_merge_grow = ex_state 2 ex_view [] [] [ex_link1, ex_just2, ex_just3]"



lemmas ex_defs3 = ex_just2_def ex_just3_def ex_block_A7_def

text \<open>A node state of \<^verbatim>\<open>ga_based\<close> at time 8 (slot 1) with the view \<open>G \<leftarrow> A\<close>,
  \<open>G \<leftarrow> B\<close> and the votes of \<open>V1\<close>, \<open>V2\<close> and \<open>V3\<close>, all three for the head \<open>A\<close>.\<close>

definition ex_ga_fork :: GaState where
  "ex_ga_fork =
     \<lparr>ga_configuration = ex_config, ga_time = 8, ga_blocks = ex_view,
      ga_votes = [ex_link1, ex_just2, ex_just3], ga_buffer_blocks = [], ga_buffer_votes = [],
      ga_vote_receival_times = [(ex_link1, 5), (ex_just2, 5), (ex_just3, 5)],
      ga_greatest_justified_checkpoint = ex_gcp, ga_highest_candidate_block = ex_genesis\<rparr>"

section \<open>Basic facts about the helpers\<close>

lemmas ex_defs = ex_genesis_def ex_config_def ex_checkpoint_def ex_vote_def ex_common_def
  ex_state_def ex_gcp_def ex_block_A_def ex_block_B_def ex_hash_def ex_balances_def ex_stubs_def
  ex_view_def ex_link1_def ex_link2_def ex_link3_def

lemmas helper_defs = bind_def pand_def por_def pnot_def pmap_has_def pmap_get_def pmap_keys_def
  pset_map_to_pset_def pset_intersection_def pset_map_def pset_sum_def pset_add_def
  has_block_hash_def get_block_from_hash_def has_parent_def get_parent_def is_validator_def
  validator_set_weight_def outcome_def

lemmas eval_defs = valid_FFG_vote_def is_ancestor_descendant_relationship_def
  is_ancestor_descendant_walk.simps is_complete_chain_def is_complete_chain_walk.simps
  genesis_checkpoint_def

lemma ex_links_valid:
  "valid_FFG_vote ex_stubs ex_link1 ex_links = Inr True"
  "valid_FFG_vote ex_stubs ex_link2 ex_links = Inr True"
  "valid_FFG_vote ex_stubs ex_link3 ex_links = Inr True"
  by (simp_all add: ex_links_def eval_defs helper_defs ex_defs)

lemma ex_links_view: "view_votes ex_links = [ex_link1, ex_link2, ex_link3]"
  by (simp add: ex_links_def ex_common_def)

lemma ex_links_G: "get_block_from_hash (block_hash ex_gcp) ex_links = Inr ex_genesis"
  by (simp add: ex_links_def helper_defs ex_defs)

lemma ex_links_no_single_target: "\<not> spec_finalizing_link ex_stubs ex_gcp c' ex_links"
  unfolding spec_finalizing_link_def link_senders_def ex_links_G ex_links_view
  by (auto simp: ex_links_valid is_supermajority_def helper_defs ex_defs)



lemma set_pset_filter: "set (pset_filter p s) = {x \<in> set s. p x}"
  by (simp add: pset_filter_def)

lemma set_pset_map_to_pset: "set (pset_map_to_pset f s) = f ` set s"
  by (simp add: pset_map_to_pset_def)

lemma set_pset_merge: "set (pset_merge a b) = set a \<union> set b"
  by (simp add: pset_merge_def)

section \<open>Clock: slot and phase of a time\<close>

text \<open>
  Claim C9. For a time \<open>t \<ge> 0\<close> and a positive \<open>delta\<close>, \<open>get_slot_from_time\<close> returns
  \<open>t div (4 * delta)\<close> (Python's floor division), and \<open>get_phase_from_time\<close> returns
  \<open>PROPOSE\<close>, \<open>VOTE\<close>, \<open>CONFIRM\<close> or \<open>MERGE\<close> exactly when \<open>t mod (4 * delta)\<close>
  lies in the first, second, third or fourth quarter of the slot. Both results depend on
  \<open>t\<close> and the configuration only.
\<close>

theorem clock_slot_and_phase:
  assumes "0 \<le> t" and "0 < delta (configuration (common ns))"
  shows "get_slot_from_time t ns = Inr (t div (4 * delta (configuration (common ns))))
    \<and> (get_phase_from_time t ns = Inr PROPOSE \<longleftrightarrow>
          0 \<le> t mod (4 * delta (configuration (common ns)))
          \<and> t mod (4 * delta (configuration (common ns))) < delta (configuration (common ns)))
    \<and> (get_phase_from_time t ns = Inr VOTE \<longleftrightarrow>
          delta (configuration (common ns)) \<le> t mod (4 * delta (configuration (common ns)))
          \<and> t mod (4 * delta (configuration (common ns))) < 2 * delta (configuration (common ns)))
    \<and> (get_phase_from_time t ns = Inr CONFIRM \<longleftrightarrow>
          2 * delta (configuration (common ns)) \<le> t mod (4 * delta (configuration (common ns)))
          \<and> t mod (4 * delta (configuration (common ns))) < 3 * delta (configuration (common ns)))
    \<and> (get_phase_from_time t ns = Inr MERGE \<longleftrightarrow>
          3 * delta (configuration (common ns)) \<le> t mod (4 * delta (configuration (common ns)))
          \<and> t mod (4 * delta (configuration (common ns))) < 4 * delta (configuration (common ns)))
    \<and> (\<forall>ns'. configuration (common ns') = configuration (common ns) \<longrightarrow>
          get_slot_from_time t ns' = get_slot_from_time t ns
          \<and> get_phase_from_time t ns' = get_phase_from_time t ns)"
proof -
  let ?d = "delta (configuration (common ns))"
  let ?m = "t mod (4 * ?d)"
  have pos: "0 < 4 * ?d" using assms(2) by simp
  have lo: "0 \<le> ?m" using pos by simp
  have hi: "?m < 4 * ?d" using pos by simp
  have nz: "4 * ?d \<noteq> 0" using pos by simp
  have s: "get_slot_from_time t ns = Inr (t div (4 * ?d))"
    using nz by (simp add: get_slot_from_time_def py_floordiv_def)
  have p: "get_phase_from_time t ns =
      Inr (if ?m \<ge> 3 * ?d then MERGE
           else if ?m \<ge> 2 * ?d then CONFIRM
           else if ?m \<ge> ?d then VOTE else PROPOSE)"
    using nz by (simp add: get_phase_from_time_def py_mod_def bind_def)
  have c1: "get_phase_from_time t ns = Inr PROPOSE \<longleftrightarrow> 0 \<le> ?m \<and> ?m < ?d"
    unfolding p using lo assms(2) by simp
  have c2: "get_phase_from_time t ns = Inr VOTE \<longleftrightarrow> ?d \<le> ?m \<and> ?m < 2 * ?d"
    unfolding p using assms(2) by simp
  have c3: "get_phase_from_time t ns = Inr CONFIRM \<longleftrightarrow> 2 * ?d \<le> ?m \<and> ?m < 3 * ?d"
    unfolding p using assms(2) by simp
  have c4: "get_phase_from_time t ns = Inr MERGE \<longleftrightarrow> 3 * ?d \<le> ?m \<and> ?m < 4 * ?d"
    unfolding p using hi by simp
  have pure: "\<forall>ns'. configuration (common ns') = configuration (common ns) \<longrightarrow>
      get_slot_from_time t ns' = get_slot_from_time t ns
      \<and> get_phase_from_time t ns' = get_phase_from_time t ns"
    by (simp add: get_slot_from_time_def get_phase_from_time_def cong: if_cong)
  from s c1 c2 c3 c4 pure show ?thesis
    by (intro conjI)
qed

theorem clock_slot_and_phase_witness:
  "get_slot_from_time 21 (ex_state 0 [] [] [] []) = Inr 2
   \<and> get_phase_from_time 21 (ex_state 0 [] [] [] []) = Inr CONFIRM"
  using clock_slot_and_phase [of 21 "ex_state 0 [] [] [] []"]
  by (simp add: ex_state_def ex_common_def ex_config_def)

section \<open>The k-deep slot\<close>

text \<open>
  Claim C10 says that \<open>get_k_deep_slot s\<close> returns \<open>max 0 (s - k)\<close>. The function has no
  \<^verbatim>\<open>return\<close> statement: for slot 100 the computed local is 36, and the value handed to
  the caller is \<^verbatim>\<open>None\<close>.
\<close>

theorem get_k_deep_slot_returns_nothing:
  "get_k_deep_slot 100 = None \<and> get_k_deep_slot 100 \<noteq> Some 36"
  by (simp add: get_k_deep_slot_def)

section \<open>The vote-expiry filter\<close>

lemma filter_out_expired_GHOST_votes_set:
  "set (filter_out_expired_GHOST_votes vs ns) = {v \<in> set vs. is_GHOST_vote_expired v ns}"
  by (simp add: filter_out_expired_GHOST_votes_def set_pset_filter)

text \<open>
  Claim C1 says that the filter removes exactly the expired votes. The function hands the
  test \<^verbatim>\<open>is_GHOST_vote_expired\<close> itself to \<^verbatim>\<open>pset_filter\<close>, which keeps the elements on
  which its predicate holds: seen from slot 10 with \<open>eta = 3\<close>, the vote of slot 0
  (expired) is kept and the vote of slot 9 (not expired) is removed.
\<close>

theorem filter_out_expired_GHOST_votes_keeps_expired:
  "is_GHOST_vote_expired ex_old_vote (ex_state 10 [] [] [] [])
   \<and> \<not> is_GHOST_vote_expired ex_fresh_vote (ex_state 10 [] [] [] [])
   \<and> filter_out_expired_GHOST_votes [ex_old_vote, ex_fresh_vote] (ex_state 10 [] [] [] [])
       = [ex_old_vote]"
  by (simp add: filter_out_expired_GHOST_votes_def pset_filter_def is_GHOST_vote_expired_def
      ex_old_vote_def ex_fresh_vote_def ex_vote_def ex_state_def ex_common_def ex_config_def)

section \<open>Slashing detection\<close>

lemma is_slashable_offence_iff:
  "is_slashable_offence st v1 v2 \<longleftrightarrow>
     verify_vote_signature st v1 \<and> verify_vote_signature st v2 \<and> spec_slashable_pair v1 v2"
  by (auto simp: is_slashable_offence_def are_equivocating_votes_def
      does_first_vote_surround_second_vote_def spec_slashable_pair_def spec_equivocation_def
      spec_surround_def)

text \<open>
  Claim C8, as amended. A node \<open>n\<close> is reported by \<open>get_slashabe_nodes\<close> exactly when the
  view holds votes \<open>v1\<close>, \<open>v2\<close> with \<open>sender v1 = n\<close> whose signatures both verify and that
  are an equivocation or a surround (in either direction) as the specification defines
  them.
\<close>

theorem get_slashabe_nodes_iff:
  "n \<in> set (get_slashabe_nodes st view) \<longleftrightarrow>
     (\<exists>v1 \<in> set view. \<exists>v2 \<in> set view.
        sender v1 = n \<and> verify_vote_signature st v1 \<and> verify_vote_signature st v2
        \<and> spec_slashable_pair v1 v2)"
proof -
  have "n \<in> set (get_slashabe_nodes st view) \<longleftrightarrow>
      (\<exists>v1 \<in> set view. sender v1 = n \<and> (\<exists>v2 \<in> set view. is_slashable_offence st v1 v2))"
    by (auto simp: get_slashabe_nodes_def set_pset_map_to_pset set_pset_filter
        pset_is_empty_def pset_filter_def filter_empty_conv)
  then show ?thesis
    by (auto simp: is_slashable_offence_iff)
qed

text \<open>
  The claim as stated, with no condition on signatures, fails: two votes of \<open>V1\<close> for
  the same target slot are an equivocation of the specification, and with signatures that
  do not verify \<open>V1\<close> is not reported.
\<close>

theorem get_slashabe_nodes_counterexample:
  "ex_equiv_vote1 \<in> set [ex_equiv_vote1, ex_equiv_vote2]
   \<and> ex_equiv_vote2 \<in> set [ex_equiv_vote1, ex_equiv_vote2]
   \<and> sender ex_equiv_vote1 = ''V1''
   \<and> spec_equivocation ex_equiv_vote1 ex_equiv_vote2
   \<and> spec_slashable_pair ex_equiv_vote1 ex_equiv_vote2
   \<and> ''V1'' \<notin> set (get_slashabe_nodes ex_stubs_reject [ex_equiv_vote1, ex_equiv_vote2])"
  by (simp add: get_slashabe_nodes_def pset_map_to_pset_def pset_filter_def pset_is_empty_def
      is_slashable_offence_def are_equivocating_votes_def
      does_first_vote_surround_second_vote_def spec_slashable_pair_def spec_equivocation_def
      ex_equiv_vote1_def ex_equiv_vote2_def ex_vote_def ex_stubs_reject_def ex_checkpoint_def)

section \<open>Finalization\<close>

lemma pset_filter_r_Inr:
  "pset_filter_r p xs = Inr ys \<Longrightarrow> ys = filter (\<lambda>x. p x = Inr True) xs"
proof (induction xs arbitrary: ys)
  case Nil
  then show ?case by simp
next
  case (Cons a xs)
  then show ?case
    by (auto split: sum.splits if_splits)
qed

lemma pand_pure_True:
  "pand a (pand (Inr p) (Inr q)) = Inr True \<longleftrightarrow> a = Inr True \<and> p \<and> q"
  by (auto simp: pand_def split: sum.splits)

text \<open>
  Claim C3, as amended. Whenever \<open>is_finalized_checkpoint\<close> returns, it returns \<open>True\<close>
  exactly when the checkpoint \<open>c\<close> is justified and the senders of the valid votes of the
  view whose \<open>ffg_source\<close> is exactly \<open>c\<close> and whose \<open>ffg_target\<close> has checkpoint slot
  \<open>chkp_slot c + 1\<close>, whatever that target is, carry a supermajority of the validator set
  of \<open>c\<close>. The votes are pooled over all targets of the next slot, and no target is
  required to be justified.
\<close>

theorem is_finalized_checkpoint_returns:
  assumes "is_finalized_checkpoint st c ns = Inr b"
  shows "b \<longleftrightarrow>
     is_justified_checkpoint st c ns = Inr True
     \<and> (case get_block_from_hash (block_hash c) ns of
           Inl e \<Rightarrow> False
         | Inr cb \<Rightarrow>
             is_supermajority (next_slot_link_senders st c ns)
               (get_validator_set_for_slot st cb (block_slot c) ns))"
proof (cases "is_justified_checkpoint st c ns")
  case (Inl e)
  then show ?thesis using assms by (simp add: is_finalized_checkpoint_def bind_def)
next
  case (Inr j)
  show ?thesis
  proof (cases j)
    case False
    then show ?thesis using assms Inr by (simp add: is_finalized_checkpoint_def bind_def)
  next
    case True
    from assms Inr True obtain cb linking where
      cb: "get_block_from_hash (block_hash c) ns = Inr cb" and
      lk: "filter_out_FFG_vote_not_linking_to_a_checkpoint_in_next_slot st c ns = Inr linking" and
      b: "b = is_supermajority (pset_map_to_pset (\<lambda>vote. sender vote) linking)
                (get_validator_set_for_slot st cb (block_slot c) ns)"
      by (auto simp: is_finalized_checkpoint_def bind_def is_supermajority_def Let_def
          get_validators_in_FFG_votes_linking_to_a_checkpoint_in_next_slot_def
          split: sum.splits)
    have "linking = filter (\<lambda>vote. valid_FFG_vote st vote ns = Inr True
                  \<and> ffg_source (message vote) = c
                  \<and> chkp_slot (ffg_target (message vote)) = chkp_slot c + 1) (view_votes ns)"
      using pset_filter_r_Inr [OF lk [unfolded
            filter_out_FFG_vote_not_linking_to_a_checkpoint_in_next_slot_def]]
      by (simp add: is_FFG_vote_linking_to_a_checkpoint_in_next_slot_def pand_pure_True)
    then show ?thesis
      using Inr True cb b by (simp add: next_slot_link_senders_def)
  qed
qed

lemma ex_links_finalized: "is_finalized_checkpoint ex_stubs ex_gcp ex_links = Inr True"
  by (simp add: ex_links_def is_finalized_checkpoint_def is_justified_checkpoint.simps
      get_validators_in_FFG_votes_linking_to_a_checkpoint_in_next_slot_def
      filter_out_FFG_vote_not_linking_to_a_checkpoint_in_next_slot_def
      is_FFG_vote_linking_to_a_checkpoint_in_next_slot_def eval_defs helper_defs ex_defs)

lemma ex_links_justified: "is_justified_checkpoint ex_stubs ex_gcp ex_links = Inr True"
  by (simp add: ex_links_def is_justified_checkpoint.simps genesis_checkpoint_def ex_defs)

text \<open>
  The claim as stated asks for one justified checkpoint \<open>c'\<close> of the next slot whose link
  from \<open>c\<close> has a supermajority of its own. Three validators vote from the
  genesis checkpoint to three different targets of slot 1, with weights 1, 2 and 3 out of
  6: no link has more than half of the weight, and the genesis checkpoint is finalized
  all the same.
\<close>

theorem is_finalized_checkpoint_counterexample:
  "is_finalized_checkpoint ex_stubs ex_gcp ex_links = Inr True
   \<and> is_justified_checkpoint ex_stubs ex_gcp ex_links = Inr True
   \<and> \<not> (\<exists>c'. spec_finalizing_link ex_stubs ex_gcp c' ex_links)"
  using ex_links_finalized ex_links_justified ex_links_no_single_target by simp

text \<open>The amended statement at the same state.\<close>

theorem is_finalized_checkpoint_returns_witness:
  "is_justified_checkpoint ex_stubs ex_gcp ex_links = Inr True
   \<and> is_supermajority (next_slot_link_senders ex_stubs ex_gcp ex_links) ex_balances"
  using is_finalized_checkpoint_returns [of ex_stubs ex_gcp ex_links True]
    ex_links_finalized
  by (simp add: ex_links_G ex_stubs_def)

section \<open>Vote validation on a vote that names an unknown block\<close>

text \<open>
  Claim C7 says that validating a vote whose hashes are unknown returns \<open>False\<close> and
  never looks up a hash that \<open>has_block_hash\<close> rejects. \<open>valid_FFG_vote\<close> looks up
  \<open>head_hash\<close> with no test before it, and looks up the source and target blocks (for the
  ancestor test) before it tests \<open>has_block_hash\<close> on them: for a signed vote whose head is
  the unknown hash \<open>X\<close>, and for one whose source block is \<open>X\<close>, the lookup raises
  \<open>KeyError\<close>. \<open>valid_vote\<close> calls \<open>valid_FFG_vote\<close> before its own test of \<open>head_hash\<close>
  and raises as well.
\<close>

theorem valid_FFG_vote_raises:
  "verify_vote_signature ex_stubs ex_dangling_head
   \<and> \<not> has_block_hash (head_hash (message ex_dangling_head)) (ex_common 1 ex_view [])
   \<and> valid_FFG_vote ex_stubs ex_dangling_head (ex_common 1 ex_view []) = Inl KeyError
   \<and> valid_vote ex_stubs ex_dangling_head (ex_state 1 ex_view [] [] []) = Inl KeyError
   \<and> has_block_hash (head_hash (message ex_dangling_source)) (ex_common 1 ex_view [])
   \<and> \<not> has_block_hash (block_hash (ffg_source (message ex_dangling_source)))
         (ex_common 1 ex_view [])
   \<and> valid_FFG_vote ex_stubs ex_dangling_source (ex_common 1 ex_view []) = Inl KeyError"
  by (simp add: valid_vote_def eval_defs helper_defs ex_defs ex_defs2)

section \<open>Termination of the justification recursion\<close>




















lemma is_justified_checkpoint_call_decreases:
  assumes "valid_FFG_vote st vote ns = Inr True"
    and "chkp_slot (ffg_target (message vote)) = chkp_slot c"
  shows "chkp_slot (ffg_source (message vote)) < chkp_slot c"
    and "vote \<in> set (view_votes ns) \<Longrightarrow>
      length (votes_up_to ns (chkp_slot (ffg_source (message vote))))
        < length (votes_up_to ns (chkp_slot c))"
proof -
  show lt: "chkp_slot (ffg_source (message vote)) < chkp_slot c"
    using valid_FFG_vote_slots [OF assms(1)] assms(2) by simp
  show "length (votes_up_to ns (chkp_slot (ffg_source (message vote))))
        < length (votes_up_to ns (chkp_slot c))" if "vote \<in> set (view_votes ns)"
    unfolding votes_up_to_def
    using that lt assms(2) by (intro length_filter_strict [of vote]) auto
qed





section \<open>View merge\<close>

lemma set_pmap_values: "set (pmap_values m) = ran (map_of m)"
proof -
  have "set (pmap_values m) = (\<lambda>key. the (map_of m key)) ` fst ` set m"
    by (simp add: pmap_values_def pmap_keys_def)
  also have "\<dots> = ran (map_of m)"
  proof (intro set_eqI iffI)
    fix v assume "v \<in> (\<lambda>key. the (map_of m key)) ` fst ` set m"
    then obtain key where key: "key \<in> fst ` set m" and v: "v = the (map_of m key)"
      by auto
    from key obtain w where "map_of m key = Some w"
      by (cases "map_of m key") (auto simp: map_of_eq_None_iff)
    then show "v \<in> ran (map_of m)"
      using v by (auto simp: ran_def)
  next
    fix v assume "v \<in> ran (map_of m)"
    then obtain key where key: "map_of m key = Some v"
      by (auto simp: ran_def)
    then have "key \<in> fst ` set m"
      by (metis map_of_eq_None_iff option.distinct(1))
    then show "v \<in> (\<lambda>key. the (map_of m key)) ` fst ` set m"
      using key by force
  qed
  finally show ?thesis .
qed

lemma set_get_votes_included_in_blocks:
  "set (get_votes_included_in_blocks blocks) = (\<Union>b \<in> set blocks. set (votes b))"
  by (simp add: get_votes_included_in_blocks_def pset_merge_flatten_def pset_map_def)

text \<open>
  The view merge of \<^verbatim>\<open>high_level/protocols/rlmd/helpers.py\<close> does what claim C6 says: the
  block view becomes the old view overridden by the block buffer, the vote view gains the
  vote buffer and the votes carried by the blocks of the merged block view, both buffers
  are emptied, and no other component changes.
\<close>

theorem execute_view_merge_high_level:
  "map_of (view_blocks (common (execute_view_merge ns)))
     = map_of (view_blocks (common ns)) ++ map_of (buffer_blocks ns)
   \<and> set (view_votes (common (execute_view_merge ns)))
     = set (view_votes (common ns)) \<union> set (buffer_votes ns)
       \<union> (\<Union>b \<in> ran (map_of (view_blocks (common (execute_view_merge ns)))). set (votes b))
   \<and> buffer_votes (execute_view_merge ns) = []
   \<and> buffer_blocks (execute_view_merge ns) = []
   \<and> configuration (common (execute_view_merge ns)) = configuration (common ns)
   \<and> identity (common (execute_view_merge ns)) = identity (common ns)
   \<and> current_slot (common (execute_view_merge ns)) = current_slot (common ns)
   \<and> chava (common (execute_view_merge ns)) = chava (common ns)
   \<and> current_phase (execute_view_merge ns) = current_phase ns"
  by (simp add: execute_view_merge_def Let_def pmap_merge_def pset_get_empty_def
      pmap_get_empty_def set_pset_merge set_get_votes_included_in_blocks get_all_blocks_def
      set_pmap_values)

lemma precord_set_other:
  "precord_set r name v = Inr r' \<Longrightarrow> name' \<noteq> name \<Longrightarrow> map_of r' name' = map_of r name'"
proof -
  have "map_of (map (\<lambda>(n, old). if n = name then (n, v) else (n, old)) r) name' = map_of r name'"
    if "name' \<noteq> name"
    using that by (induction r) auto
  then show "precord_set r name v = Inr r' \<Longrightarrow> name' \<noteq> name \<Longrightarrow> map_of r' name' = map_of r name'"
    by (auto simp: precord_set_def split: if_splits)
qed

lemma ga_execute_view_merge_keeps_votes:
  assumes "ga_execute_view_merge r = Inr r'"
  shows "precord_get r' ''votes'' = precord_get r ''votes''
    \<and> precord_get r' ''buffer_votes'' = precord_get r ''buffer_votes''"
proof -
  from assms obtain a b c r1 r2 r3 where
    s1: "precord_set r ''blocks'' a = Inr r1" and
    s2: "precord_set r1 ''view_vote'' b = Inr r2" and
    s3: "precord_set r2 ''buffer_vote'' c = Inr r3" and
    s4: "precord_set r3 ''buffer_blocks'' (VBlocks pmap_get_empty) = Inr r'"
    by (auto simp: ga_execute_view_merge_def bind_def split: sum.splits)
  have "map_of r' name = map_of r name"
    if "name \<noteq> ''blocks''" "name \<noteq> ''view_vote''" "name \<noteq> ''buffer_vote''"
      "name \<noteq> ''buffer_blocks''" for name
    using precord_set_other [OF s1 that(1)] precord_set_other [OF s2 that(2)]
      precord_set_other [OF s3 that(3)] precord_set_other [OF s4 that(4)]
    by simp
  from this [of "''votes''"] this [of "''buffer_votes''"] show ?thesis
    by (simp add: precord_get_def)
qed

text \<open>
  Claim C6 says that after \<open>execute_view_merge\<close> the vote view holds the vote buffer and
  the votes of the blocks, and the vote buffer is empty. The function of
  \<^verbatim>\<open>ga_based/helpers.py\<close> reads \<^verbatim>\<open>votes\<close> and \<^verbatim>\<open>buffer_votes\<close> and assigns
  \<^verbatim>\<open>view_vote\<close> and \<^verbatim>\<open>buffer_vote\<close>. On a state with the fields of the specification the
  assignment raises; on a state that has the two other fields as well the call returns, the
  buffered vote is still in \<^verbatim>\<open>buffer_votes\<close> and \<^verbatim>\<open>votes\<close> is still empty.
\<close>

theorem ga_execute_view_merge_misses_votes:
  "ga_execute_view_merge ex_ga_state = Inl AttributeError
   \<and> bind (ga_execute_view_merge ex_ga_state_wide) (\<lambda>r. precord_get r ''votes'')
       = Inr (VVotes [])
   \<and> bind (ga_execute_view_merge ex_ga_state_wide) (\<lambda>r. precord_get r ''buffer_votes'')
       = Inr (VVotes [ex_link1])"
  by (simp add: ga_execute_view_merge_def precord_get_def precord_set_def as_blocks_def
      as_votes_def bind_def ex_ga_state_def ex_ga_state_wide_def pmap_merge_def)

section \<open>The walk of the fork choice of \<^verbatim>\<open>high_level\<close>\<close>

lemma max_from_r_Inr:
  assumes "max_from_r key best kb xs = Inr r" and "key best = Inr kb"
  shows "r \<in> insert best (set xs)
    \<and> (\<exists>w. key r = Inr w \<and> kb \<le> w \<and> (\<forall>c \<in> set xs. \<exists>w'. key c = Inr w' \<and> w' \<le> w))"
  using assms
proof (induction xs arbitrary: best kb)
  case Nil
  then show ?case by simp
next
  case (Cons x xs)
  from Cons.prems(1) obtain kx where kx: "key x = Inr kx"
    by (cases "key x") auto
  show ?case
  proof (cases "kb < kx")
    case True
    then have "max_from_r key x kx xs = Inr r"
      using Cons.prems(1) kx by simp
    from Cons.IH [OF this kx] show ?thesis
      using True kx by fastforce
  next
    case False
    then have "max_from_r key best kb xs = Inr r"
      using Cons.prems(1) kx by simp
    from Cons.IH [OF this Cons.prems(2)] show ?thesis
      using False kx by fastforce
  qed
qed

lemma pset_max_r_Inr:
  assumes "pset_max_r s key = Inr best"
  shows "best \<in> set s
    \<and> (\<exists>w. key best = Inr w \<and> (\<forall>c \<in> set s. \<exists>w'. key c = Inr w' \<and> w' \<le> w))"
proof (cases s)
  case Nil
  then show ?thesis using assms by (simp add: pset_max_r_def)
next
  case (Cons x xs)
  then obtain kx where kx: "key x = Inr kx" and m: "max_from_r key x kx xs = Inr best"
    using assms by (cases "key x") (auto simp: pset_max_r_def)
  from max_from_r_Inr [OF m kx] show ?thesis
    using Cons kx by fastforce
qed

lemma find_head_from_walk_Some:
  assumes "find_head_from_walk st block vs ns vb = Some y"
  shows "\<forall>head. y = Inr head \<longrightarrow>
           (heaviest_child st vs ns vb)\<^sup>*\<^sup>* block head \<and> get_children st head ns = []"
proof (rule find_head_from_walk.raw_induct
    [where P = "\<lambda>st block vs ns vb y. \<forall>head. y = Inr head \<longrightarrow>
           (heaviest_child st vs ns vb)\<^sup>*\<^sup>* block head \<and> get_children st head ns = []",
     OF _ assms])
  fix walk :: "Stubs \<Rightarrow> Block \<Rightarrow> SignedVoteMessage list \<Rightarrow> NodeState \<Rightarrow> ValidatorBalances
       \<Rightarrow> Block result option"
    and st block vs ns vb y
  assume IH: "\<And>st block vs ns vb y. walk st block vs ns vb = Some y \<Longrightarrow>
      \<forall>head. y = Inr head \<longrightarrow>
           (heaviest_child st vs ns vb)\<^sup>*\<^sup>* block head \<and> get_children st head ns = []"
    and step: "(let children = get_children st block ns in
      if length children = 0 then Some (Inr block)
      else
        (case pset_max_r children (\<lambda>child. get_GHOST_weight child vs ns vb) of
           Inl e \<Rightarrow> Some (Inl e)
         | Inr best_child \<Rightarrow> walk st best_child vs ns vb)) = Some y"
  show "\<forall>head. y = Inr head \<longrightarrow>
           (heaviest_child st vs ns vb)\<^sup>*\<^sup>* block head \<and> get_children st head ns = []"
  proof (intro allI impI)
    fix head assume y: "y = Inr head"
    show "(heaviest_child st vs ns vb)\<^sup>*\<^sup>* block head \<and> get_children st head ns = []"
    proof (cases "get_children st block ns = []")
      case True
      then show ?thesis using step y by simp
    next
      case False
      then obtain best where
        best: "pset_max_r (get_children st block ns) (\<lambda>child. get_GHOST_weight child vs ns vb)
                 = Inr best" and
        w: "walk st best vs ns vb = Some y"
        using step y by (auto simp: Let_def split: sum.splits)
      have "heaviest_child st vs ns vb block best"
        using pset_max_r_Inr [OF best] by (simp add: heaviest_child_def)
      moreover have "(heaviest_child st vs ns vb)\<^sup>*\<^sup>* best head \<and> get_children st head ns = []"
        using IH [OF w] y by simp
      ultimately show ?thesis
        by (meson converse_rtranclp_into_rtranclp)
    qed
  qed
qed

text \<open>
  The walk of \<^verbatim>\<open>high_level/protocols/rlmd/helpers.py\<close>. When \<open>find_head_from\<close>
  returns a head, the head is reached from the start block by steps that each go from a
  block to one of its children of maximal GHOST weight among the children, and the head
  has no child.
\<close>

theorem find_head_from_descends_to_heaviest_child:
  assumes "find_head_from st block vs ns vb = Inr head"
  shows "(heaviest_child st vs ns vb)\<^sup>*\<^sup>* block head \<and> get_children st head ns = []"
proof -
  from assms have "find_head_from_walk st block vs ns vb = Some (Inr head)"
    by (auto simp: find_head_from_def outcome_def split: option.splits)
  from find_head_from_walk_Some [OF this] show ?thesis
    by simp
qed


lemmas fork_defs = get_children_def get_all_blocks_def pmap_values_def pset_filter_def
  get_GHOST_weight_def pset_max_r_def find_head_from_def find_head_from_walk.simps
  total_vote_weight_def

lemma ex_fork_children:
  "get_children ex_stubs ex_genesis ex_fork = [ex_block_A, ex_block_B]"
  "get_children ex_stubs ex_block_A ex_fork = []"
  "get_children ex_stubs ex_block_B ex_fork = []"
  by (simp_all add: ex_fork_def fork_defs helper_defs ex_defs)

lemma ex_fork_weights:
  "get_GHOST_weight ex_block_A [ex_link1, ex_link2, ex_link3] ex_fork ex_balances = Inr 1"
  "get_GHOST_weight ex_block_B [ex_link1, ex_link2, ex_link3] ex_fork ex_balances = Inr 2"
  by (simp_all add: ex_fork_def fork_defs eval_defs helper_defs ex_defs)

lemma ex_fork_head:
  "find_head_from ex_stubs ex_genesis [ex_link1, ex_link2, ex_link3] ex_fork ex_balances
     = Inr ex_block_B"
  by (simp add: find_head_from_def find_head_from_walk.simps pset_max_r_def ex_fork_children
      ex_fork_weights outcome_def)

lemma ex_fork_total: "total_vote_weight [ex_link1, ex_link2, ex_link3] ex_balances = 6"
  by (simp add: fork_defs helper_defs ex_defs)

lemma ex_no_votes_head: "get_head ex_stubs (ex_state 1 ex_view [] [] []) = Inr ex_block_A"
  by (simp add: get_head_def get_greatest_justified_checkpoint_def get_justified_checkpoints_def
      filter_out_non_justified_checkpoint_def get_set_FFG_targets_def pset_max_def
      filter_out_invalid_votes_def filter_out_GHOST_equivocating_votes_def
      filter_out_expired_GHOST_votes_def filter_out_non_LMD_GHOST_votes_def
      filter_out_GHOST_votes_non_descendant_of_block_def pmap_get_empty_def
      fork_defs eval_defs helper_defs ex_defs)

lemma ex_no_votes_weight: "get_GHOST_weight block [] ns vb = Inr 0"
  by (simp add: get_GHOST_weight_def bind_def pset_sum_def)

text \<open>
  The walk of \<^verbatim>\<open>high_level/protocols/rlmd/helpers.py\<close> compares the weights of the
  children with each other and not with the total vote weight. With the relevant votes of
  \<open>V1\<close>, \<open>V2\<close>, \<open>V3\<close> (weights 1, 2, 3) for the heads \<open>A\<close>, \<open>B\<close> and \<open>G\<close>, the total
  vote weight is 6 and the child \<open>B\<close> of the genesis block has weight 2, which does not
  exceed half of 6; \<open>find_head_from\<close> descends into \<open>B\<close> and returns it. With no vote
  at all \<open>get_head\<close> returns the child \<open>A\<close>, of weight 0.
\<close>

theorem find_head_from_descends_without_majority:
  "ex_block_B \<in> set (get_children ex_stubs ex_genesis ex_fork)
   \<and> get_GHOST_weight ex_block_B [ex_link1, ex_link2, ex_link3] ex_fork ex_balances = Inr 2
   \<and> total_vote_weight [ex_link1, ex_link2, ex_link3] ex_balances = 6
   \<and> \<not> (2 > total_vote_weight [ex_link1, ex_link2, ex_link3] ex_balances div 2)
   \<and> find_head_from ex_stubs ex_genesis [ex_link1, ex_link2, ex_link3] ex_fork ex_balances
        = Inr ex_block_B
   \<and> get_head ex_stubs (ex_state 1 ex_view [] [] []) = Inr ex_block_A
   \<and> get_GHOST_weight ex_block_A [] (ex_state 1 ex_view [] [] []) ex_balances = Inr 0"
  by (simp add: ex_fork_children ex_fork_weights ex_fork_head ex_fork_total ex_no_votes_head
      ex_no_votes_weight)

theorem find_head_from_descends_to_heaviest_child_witness:
  "(heaviest_child ex_stubs [ex_link1, ex_link2, ex_link3] ex_fork ex_balances)\<^sup>*\<^sup>*
      ex_genesis ex_block_B
   \<and> get_children ex_stubs ex_block_B ex_fork = []"
  using find_head_from_descends_to_heaviest_child [OF ex_fork_head]
  by simp

section \<open>The walk of the fork choice of \<^verbatim>\<open>ga_based\<close>\<close>

lemmas ga_fork_defs = ga_get_children_def ga_get_all_blocks_def pmap_values_def pset_filter_def
  ga_get_GHOST_weight_def ga_has_block_hash_def ga_get_block_from_hash_def ga_has_parent_def
  ga_get_parent_def ga_is_ancestor_descendant_relationship_def
  ga_is_ancestor_descendant_walk.simps total_vote_weight_def

lemma pset_filter_call_swapped: "pset_filter_call (PySet s) (PyFunction f) = Inl TypeError"
  by (simp add: pset_filter_call_def)

lemma pset_filter_call_in_order:
  "pset_filter_call (PyFunction f) (PySet s) = pset_filter_r f s"
  by (simp add: pset_filter_call_def)

lemma ga_find_head_from_TypeError:
  "ga_find_head_from st block votes_arg node_state validatorBalances w = Inl TypeError"
  by (simp add: ga_find_head_from_def pset_filter_call_swapped bind_def)

lemma ex_ga_fork_children:
  "ga_get_children ex_stubs ex_genesis ex_ga_fork = [ex_block_A, ex_block_B]"
  "ga_get_children ex_stubs ex_block_A ex_ga_fork = []"
  by (simp_all add: ex_ga_fork_def ga_fork_defs helper_defs ex_defs)

lemma ex_ga_fork_weights:
  "ga_get_GHOST_weight ex_block_A [ex_link1, ex_just2, ex_just3] ex_ga_fork ex_balances = Inr 6"
  "ga_get_GHOST_weight ex_block_B [ex_link1, ex_just2, ex_just3] ex_ga_fork ex_balances = Inr 0"
  by (simp_all add: ex_ga_fork_def ga_fork_defs helper_defs ex_defs ex_defs3)

lemma ex_ga_fork_total: "total_vote_weight [ex_link1, ex_just2, ex_just3] ex_balances = 6"
  by (simp add: ga_fork_defs helper_defs ex_defs ex_defs3)

lemma ex_ga_fork_majority:
  "spec_children_with_majority_support ex_stubs ex_genesis [ex_link1, ex_just2, ex_just3]
     ex_ga_fork ex_balances 6 = Inr [ex_block_A]"
  "spec_children_with_majority_support ex_stubs ex_block_A [ex_link1, ex_just2, ex_just3]
     ex_ga_fork ex_balances 6 = Inr []"
  by (simp_all add: spec_children_with_majority_support_def pset_filter_call_in_order
      ex_ga_fork_children ex_ga_fork_weights bind_def py_floordiv_def)

text \<open>
  Claim C2 fails on \<^verbatim>\<open>find_head_from\<close> of \<^verbatim>\<open>ga_based/helpers.py\<close>, the walk with the
  comparison against half of the total vote weight. In the view \<open>G \<leftarrow> A\<close>, \<open>G \<leftarrow> B\<close>
  with the votes of \<open>V1\<close>, \<open>V2\<close> and \<open>V3\<close> (weights 1, 2 and 3) for the head \<open>A\<close>, the
  total vote weight is 6, the child \<open>A\<close> of the genesis block has GHOST weight 6, more
  than half of the total, the child \<open>B\<close> has weight 0, and \<open>A\<close> has no child: the walk
  of the claim goes from \<open>G\<close> to \<open>A\<close> and returns \<open>A\<close>. \<open>find_head_from\<close> raises
  \<^verbatim>\<open>TypeError\<close>, from \<open>G\<close> and from \<open>A\<close>.
\<close>

theorem ga_find_head_from_raises:
  "ga_get_children ex_stubs ex_genesis ex_ga_fork = [ex_block_A, ex_block_B]
   \<and> total_vote_weight [ex_link1, ex_just2, ex_just3] ex_balances = 6
   \<and> ga_get_GHOST_weight ex_block_A [ex_link1, ex_just2, ex_just3] ex_ga_fork ex_balances
        = Inr 6
   \<and> ga_get_GHOST_weight ex_block_B [ex_link1, ex_just2, ex_just3] ex_ga_fork ex_balances
        = Inr 0
   \<and> spec_children_with_majority_support ex_stubs ex_genesis [ex_link1, ex_just2, ex_just3]
        ex_ga_fork ex_balances 6 = Inr [ex_block_A]
   \<and> ga_get_children ex_stubs ex_block_A ex_ga_fork = []
   \<and> ga_find_head_from ex_stubs ex_genesis [ex_link1, ex_just2, ex_just3] ex_ga_fork
        ex_balances 6 = Inl TypeError
   \<and> ga_find_head_from ex_stubs ex_block_A [ex_link1, ex_just2, ex_just3] ex_ga_fork
        ex_balances 6 = Inl TypeError"
  by (simp add: ex_ga_fork_children ex_ga_fork_weights ex_ga_fork_total ex_ga_fork_majority
      ga_find_head_from_TypeError)

section \<open>Monotonicity of the greatest justified checkpoint\<close>

lemma get_block_from_hash_mono:
  "view_extends ns ns' \<Longrightarrow> get_block_from_hash h ns = Inr b \<Longrightarrow>
     get_block_from_hash h ns' = Inr b"
  by (auto simp: view_extends_def get_block_from_hash_def pmap_get_def map_le_def dom_def
      split: option.splits)

lemma has_block_hash_mono:
  "view_extends ns ns' \<Longrightarrow> has_block_hash h ns \<Longrightarrow> has_block_hash h ns'"
  by (auto simp: view_extends_def has_block_hash_def pmap_has_def map_le_def dom_def)

lemma has_block_hash_get:
  "has_block_hash h ns \<longleftrightarrow> (\<exists>b. get_block_from_hash h ns = Inr b)"
  by (auto simp: has_block_hash_def get_block_from_hash_def pmap_has_def pmap_get_def
      split: option.splits)

lemma is_complete_chain_walk_mono:
  assumes "is_complete_chain_walk b ns = Some y"
  shows "y = Inr True \<longrightarrow> (\<forall>ns'. view_extends ns ns' \<longrightarrow>
           is_complete_chain_walk b ns' = Some (Inr True))"
proof (rule is_complete_chain_walk.raw_induct
    [where P = "\<lambda>b ns y. y = Inr True \<longrightarrow> (\<forall>ns'. view_extends ns ns' \<longrightarrow>
           is_complete_chain_walk b ns' = Some (Inr True))", OF _ assms])
  fix walk :: "Block \<Rightarrow> CommonNodeState \<Rightarrow> bool result option"
    and block node_state y
  assume IH: "\<And>b ns y. walk b ns = Some y \<Longrightarrow> y = Inr True \<longrightarrow>
        (\<forall>ns'. view_extends ns ns' \<longrightarrow> is_complete_chain_walk b ns' = Some (Inr True))"
    and step: "(if block = genesis (configuration node_state) then Some (Inr True)
      else if \<not> has_parent block node_state then Some (Inr False)
      else (case get_parent block node_state of
              Inl e \<Rightarrow> Some (Inl e)
            | Inr p \<Rightarrow> walk p node_state)) = Some y"
  show "y = Inr True \<longrightarrow> (\<forall>ns'. view_extends node_state ns' \<longrightarrow>
           is_complete_chain_walk block ns' = Some (Inr True))"
  proof (intro impI allI)
    fix ns' assume y: "y = Inr True" and ext: "view_extends node_state ns'"
    show "is_complete_chain_walk block ns' = Some (Inr True)"
    proof (cases "block = genesis (configuration node_state)")
      case True
      then show ?thesis
        using ext by (subst is_complete_chain_walk.simps) (simp add: view_extends_def)
    next
      case False
      then obtain p where hp: "has_parent block node_state"
        and p: "get_parent block node_state = Inr p" and w: "walk p node_state = Some y"
        using step y by (auto split: if_splits sum.splits)
      have "is_complete_chain_walk p ns' = Some (Inr True)"
        using IH [OF w] y ext by simp
      moreover have "has_parent block ns'" "get_parent block ns' = Inr p"
        using hp p ext
        by (auto simp: has_parent_def get_parent_def intro: has_block_hash_mono
            get_block_from_hash_mono)
      moreover have "block \<noteq> genesis (configuration ns')"
        using False ext by (simp add: view_extends_def)
      ultimately show ?thesis
        by (subst is_complete_chain_walk.simps) simp
    qed
  qed
qed

lemma is_complete_chain_mono:
  assumes "view_extends ns ns'" and "is_complete_chain b ns = Inr True"
  shows "is_complete_chain b ns' = Inr True"
proof -
  from assms(2) have "is_complete_chain_walk b ns = Some (Inr True)"
    by (auto simp: is_complete_chain_def outcome_def split: option.splits)
  from is_complete_chain_walk_mono [OF this] assms(1) show ?thesis
    by (simp add: is_complete_chain_def outcome_def)
qed

lemma is_ancestor_descendant_walk_mono:
  assumes "is_ancestor_descendant_walk a d ns = Some y"
  shows "y = Inr True \<longrightarrow> (\<forall>ns'. view_extends ns ns' \<longrightarrow>
           is_ancestor_descendant_walk a d ns' = Some (Inr True))"
proof (rule is_ancestor_descendant_walk.raw_induct
    [where P = "\<lambda>a d ns y. y = Inr True \<longrightarrow> (\<forall>ns'. view_extends ns ns' \<longrightarrow>
           is_ancestor_descendant_walk a d ns' = Some (Inr True))", OF _ assms])
  fix walk :: "Block \<Rightarrow> Block \<Rightarrow> CommonNodeState \<Rightarrow> bool result option"
    and ancestor descendant node_state y
  assume IH: "\<And>a d ns y. walk a d ns = Some y \<Longrightarrow> y = Inr True \<longrightarrow>
        (\<forall>ns'. view_extends ns ns' \<longrightarrow> is_ancestor_descendant_walk a d ns' = Some (Inr True))"
    and step: "(if ancestor = descendant then Some (Inr True)
      else if descendant = genesis (configuration node_state) then Some (Inr False)
      else if \<not> has_parent descendant node_state then Some (Inr False)
      else (case get_parent descendant node_state of
              Inl e \<Rightarrow> Some (Inl e)
            | Inr p \<Rightarrow> walk ancestor p node_state)) = Some y"
  show "y = Inr True \<longrightarrow> (\<forall>ns'. view_extends node_state ns' \<longrightarrow>
           is_ancestor_descendant_walk ancestor descendant ns' = Some (Inr True))"
  proof (intro impI allI)
    fix ns' assume y: "y = Inr True" and ext: "view_extends node_state ns'"
    show "is_ancestor_descendant_walk ancestor descendant ns' = Some (Inr True)"
    proof (cases "ancestor = descendant")
      case True
      then show ?thesis
        by (subst is_ancestor_descendant_walk.simps) simp
    next
      case False
      then obtain p where ng: "descendant \<noteq> genesis (configuration node_state)"
        and hp: "has_parent descendant node_state"
        and p: "get_parent descendant node_state = Inr p"
        and w: "walk ancestor p node_state = Some y"
        using step y by (auto split: if_splits sum.splits)
      have "is_ancestor_descendant_walk ancestor p ns' = Some (Inr True)"
        using IH [OF w] y ext by simp
      moreover have "has_parent descendant ns'" "get_parent descendant ns' = Inr p"
        using hp p ext
        by (auto simp: has_parent_def get_parent_def intro: has_block_hash_mono
            get_block_from_hash_mono)
      moreover have "descendant \<noteq> genesis (configuration ns')"
        using ng ext by (simp add: view_extends_def)
      ultimately show ?thesis
        using False by (subst is_ancestor_descendant_walk.simps) simp
    qed
  qed
qed

lemma is_ancestor_descendant_relationship_mono:
  assumes "view_extends ns ns'" and "is_ancestor_descendant_relationship a d ns = Inr True"
  shows "is_ancestor_descendant_relationship a d ns' = Inr True"
proof -
  from assms(2) have "is_ancestor_descendant_walk a d ns = Some (Inr True)"
    by (auto simp: is_ancestor_descendant_relationship_def outcome_def split: option.splits)
  from is_ancestor_descendant_walk_mono [OF this] assms(1) show ?thesis
    by (simp add: is_ancestor_descendant_relationship_def outcome_def)
qed

lemma bind_Inr_iff: "bind m f = Inr y \<longleftrightarrow> (\<exists>x. m = Inr x \<and> f x = Inr y)"
  by (cases m) (auto simp: bind_def)

lemma ancestor_lookup_mono:
  assumes "view_extends ns ns'"
    and "bind (get_block_from_hash h1 ns) (\<lambda>a. bind (get_block_from_hash h2 ns) (\<lambda>d.
           is_ancestor_descendant_relationship a d ns)) = Inr True"
  shows "bind (get_block_from_hash h1 ns') (\<lambda>a. bind (get_block_from_hash h2 ns') (\<lambda>d.
           is_ancestor_descendant_relationship a d ns')) = Inr True"
proof -
  from assms(2) obtain a d where a: "get_block_from_hash h1 ns = Inr a"
    and d: "get_block_from_hash h2 ns = Inr d"
    and r: "is_ancestor_descendant_relationship a d ns = Inr True"
    by (auto simp: bind_Inr_iff)
  show ?thesis
    using get_block_from_hash_mono [OF assms(1) a] get_block_from_hash_mono [OF assms(1) d]
      is_ancestor_descendant_relationship_mono [OF assms(1) r]
    by (simp add: bind_def)
qed

lemma valid_FFG_vote_mono:
  assumes ext: "view_extends ns ns'"
    and stub: "\<forall>b s. get_validator_set_for_slot st b s ns' = get_validator_set_for_slot st b s ns"
    and v: "valid_FFG_vote st vote ns = Inr True"
  shows "valid_FFG_vote st vote ns' = Inr True"
proof -
  from v have c: "verify_vote_signature st vote"
    "bind (get_block_from_hash (head_hash (message vote)) ns) (\<lambda>head_block.
             Inr (is_validator (sender vote)
                    (get_validator_set_for_slot st head_block
                       (VoteMessage.slot (message vote)) ns))) = Inr True"
    "bind (get_block_from_hash (block_hash (ffg_source (message vote))) ns) (\<lambda>a.
       bind (get_block_from_hash (block_hash (ffg_target (message vote))) ns) (\<lambda>d.
           is_ancestor_descendant_relationship a d ns)) = Inr True"
    "chkp_slot (ffg_source (message vote)) < chkp_slot (ffg_target (message vote))"
    "has_block_hash (block_hash (ffg_source (message vote))) ns"
    "bind (get_block_from_hash (block_hash (ffg_source (message vote))) ns) (\<lambda>source_block.
           Inr (slot source_block = block_slot (ffg_source (message vote)))) = Inr True"
    "has_block_hash (block_hash (ffg_target (message vote))) ns"
    "bind (get_block_from_hash (block_hash (ffg_target (message vote))) ns) (\<lambda>target_block.
           Inr (slot target_block = block_slot (ffg_target (message vote)))) = Inr True"
    by (simp_all add: valid_FFG_vote_def pand_True_iff)
  have c2': "bind (get_block_from_hash (head_hash (message vote)) ns') (\<lambda>head_block.
             Inr (is_validator (sender vote)
                    (get_validator_set_for_slot st head_block
                       (VoteMessage.slot (message vote)) ns'))) = Inr True"
    using c(2) get_block_from_hash_mono [OF ext] by (auto simp: bind_Inr_iff stub)
  have c6': "bind (get_block_from_hash (block_hash (ffg_source (message vote))) ns')
       (\<lambda>source_block. Inr (slot source_block = block_slot (ffg_source (message vote))))
         = Inr True"
    using c(6) get_block_from_hash_mono [OF ext] by (auto simp: bind_Inr_iff)
  have c8': "bind (get_block_from_hash (block_hash (ffg_target (message vote))) ns')
       (\<lambda>target_block. Inr (slot target_block = block_slot (ffg_target (message vote))))
         = Inr True"
    using c(8) get_block_from_hash_mono [OF ext] by (auto simp: bind_Inr_iff)
  show ?thesis
    unfolding valid_FFG_vote_def pand_True_iff
    using c(1,4) c2' ancestor_lookup_mono [OF ext c(3)] has_block_hash_mono [OF ext c(5)]
      has_block_hash_mono [OF ext c(7)] c6' c8'
    by simp
qed


lemma sum_list_filter_mono:
  fixes f :: "'a \<Rightarrow> int"
  assumes "\<And>x. x \<in> set xs \<Longrightarrow> 0 \<le> f x" and "\<And>x. P x \<Longrightarrow> Q x"
  shows "sum_list (map f (filter P xs)) \<le> sum_list (map f (filter Q xs))"
  using assms
proof (induction xs)
  case Nil
  then show ?case by simp
next
  case (Cons a xs)
  have "sum_list (map f (filter P xs)) \<le> sum_list (map f (filter Q xs))"
    using Cons by simp
  moreover have "0 \<le> f a"
    using Cons.prems(1) by simp
  ultimately show ?case
    using Cons.prems(2) by auto
qed

lemma validator_set_weight_mono:
  assumes "nonnegative_balances vb" and "set A \<subseteq> set B"
  shows "validator_set_weight A vb \<le> validator_set_weight B vb"
proof -
  have "0 \<le> the (map_of vb key)" if "key \<in> set (pmap_keys vb)" for key
  proof -
    from that obtain w where "map_of vb key = Some w"
      by (cases "map_of vb key") (auto simp: pmap_keys_def map_of_eq_None_iff)
    then show ?thesis
      using assms(1) by (auto simp: nonnegative_balances_def list_all_iff dest: map_of_SomeD)
  qed
  then show ?thesis
    unfolding validator_set_weight_def pset_sum_def pset_map_def pset_intersection_def
    using assms(2) by (intro sum_list_filter_mono) auto
qed

lemma pset_filter_r_returns:
  "pset_filter_r p xs = Inr ys \<Longrightarrow> x \<in> set xs \<Longrightarrow> \<exists>b. p x = Inr b"
  by (induction xs arbitrary: ys) (auto split: sum.splits)

lemma support_True_iff:
  "is_FFG_vote_in_support_of_checkpoint_justification st vote c ns = Inr True \<longleftrightarrow>
     valid_FFG_vote st vote ns = Inr True
     \<and> chkp_slot (ffg_target (message vote)) = chkp_slot c
     \<and> bind (get_block_from_hash (block_hash c) ns) (\<lambda>a.
         bind (get_block_from_hash (block_hash (ffg_target (message vote))) ns) (\<lambda>d.
           is_ancestor_descendant_relationship a d ns)) = Inr True
     \<and> bind (get_block_from_hash (block_hash (ffg_source (message vote))) ns) (\<lambda>a.
         bind (get_block_from_hash (block_hash c) ns) (\<lambda>d.
           is_ancestor_descendant_relationship a d ns)) = Inr True
     \<and> is_justified_checkpoint st (ffg_source (message vote)) ns = Inr True"
  by (simp add: is_FFG_vote_in_support_of_checkpoint_justification_def pand_True_iff)

lemma support_reaches_source:
  assumes "valid_FFG_vote st vote ns = Inr True"
    and "chkp_slot (ffg_target (message vote)) = chkp_slot c"
    and "bind (get_block_from_hash (block_hash c) ns) (\<lambda>a.
         bind (get_block_from_hash (block_hash (ffg_target (message vote))) ns) (\<lambda>d.
           is_ancestor_descendant_relationship a d ns)) = Inr True"
    and "bind (get_block_from_hash (block_hash (ffg_source (message vote))) ns) (\<lambda>a.
         bind (get_block_from_hash (block_hash c) ns) (\<lambda>d.
           is_ancestor_descendant_relationship a d ns)) = Inr True"
  shows "is_FFG_vote_in_support_of_checkpoint_justification st vote c ns
           = is_justified_checkpoint st (ffg_source (message vote)) ns"
  using assms
  by (simp add: is_FFG_vote_in_support_of_checkpoint_justification_def pand_def)

lemma is_justified_checkpoint_True_D:
  assumes "c \<noteq> genesis_checkpoint st ns" and "is_justified_checkpoint st c ns = Inr True"
  shows "\<exists>cb supporting.
           get_block_from_hash (block_hash c) ns = Inr cb
           \<and> is_complete_chain cb ns = Inr True
           \<and> pset_filter_r
                (\<lambda>vote. is_FFG_vote_in_support_of_checkpoint_justification st vote c ns)
                (view_votes ns) = Inr supporting
           \<and> is_supermajority (pset_map_to_pset (\<lambda>vote. sender vote) supporting)
               (get_validator_set_for_slot st cb (block_slot c) ns)"
  using assms
  by (auto simp: is_justified_checkpoint_unfold bind_def por_def pnot_def Let_def
      get_validators_in_FFG_support_of_checkpoint_justification_def
      filter_out_FFG_votes_not_in_FFG_support_of_checkpoint_justification_def
      is_supermajority_def split: sum.splits if_splits)

lemma is_justified_checkpoint_Inr_D:
  assumes "c \<noteq> genesis_checkpoint st ns" and "is_justified_checkpoint st c ns = Inr b"
    and "get_block_from_hash (block_hash c) ns = Inr cb"
    and "is_complete_chain cb ns = Inr True"
  shows "\<exists>supporting.
           pset_filter_r
                (\<lambda>vote. is_FFG_vote_in_support_of_checkpoint_justification st vote c ns)
                (view_votes ns) = Inr supporting
           \<and> b = is_supermajority (pset_map_to_pset (\<lambda>vote. sender vote) supporting)
               (get_validator_set_for_slot st cb (block_slot c) ns)"
  using assms
  by (auto simp: is_justified_checkpoint_unfold bind_def por_def pnot_def Let_def
      has_block_hash_get
      get_validators_in_FFG_support_of_checkpoint_justification_def
      filter_out_FFG_votes_not_in_FFG_support_of_checkpoint_justification_def
      is_supermajority_def split: sum.splits if_splits)


lemma is_justified_checkpoint_mono:
  assumes ext: "view_extends ns ns'"
    and stub: "\<forall>b s. get_validator_set_for_slot st b s ns' = get_validator_set_for_slot st b s ns"
    and nonneg: "\<forall>b s. nonnegative_balances (get_validator_set_for_slot st b s ns)"
  shows "is_justified_checkpoint st c ns = Inr True \<Longrightarrow>
         is_justified_checkpoint st c ns' = Inr b' \<Longrightarrow> b'"
proof (induction "length (votes_up_to ns (chkp_slot c))" arbitrary: c b' rule: less_induct)
  case less
  have gen: "genesis_checkpoint st ns' = genesis_checkpoint st ns"
    using ext by (simp add: genesis_checkpoint_def view_extends_def)
  show ?case
  proof (cases "c = genesis_checkpoint st ns")
    case True
    then show ?thesis
      using less.prems(2) gen by (simp add: is_justified_checkpoint_unfold)
  next
    case False
    from is_justified_checkpoint_True_D [OF False less.prems(1)] obtain cb supporting where
      gb: "get_block_from_hash (block_hash c) ns = Inr cb" and
      cc: "is_complete_chain cb ns = Inr True" and
      f: "pset_filter_r
            (\<lambda>vote. is_FFG_vote_in_support_of_checkpoint_justification st vote c ns)
            (view_votes ns) = Inr supporting" and
      sm: "is_supermajority (pset_map_to_pset (\<lambda>vote. sender vote) supporting)
             (get_validator_set_for_slot st cb (block_slot c) ns)"
      by blast
    have gb': "get_block_from_hash (block_hash c) ns' = Inr cb"
      by (rule get_block_from_hash_mono [OF ext gb])
    have cc': "is_complete_chain cb ns' = Inr True"
      by (rule is_complete_chain_mono [OF ext cc])
    have ng': "c \<noteq> genesis_checkpoint st ns'"
      using False gen by simp
    from is_justified_checkpoint_Inr_D [OF ng' less.prems(2) gb' cc'] obtain supporting' where
      f': "pset_filter_r
            (\<lambda>vote. is_FFG_vote_in_support_of_checkpoint_justification st vote c ns')
            (view_votes ns') = Inr supporting'" and
      b': "b' = is_supermajority (pset_map_to_pset (\<lambda>vote. sender vote) supporting')
             (get_validator_set_for_slot st cb (block_slot c) ns')"
      by blast
    have sub: "set supporting \<subseteq> set supporting'"
    proof
      fix v assume "v \<in> set supporting"
      then have vin: "v \<in> set (view_votes ns)"
        and sv: "is_FFG_vote_in_support_of_checkpoint_justification st v c ns = Inr True"
        using pset_filter_r_Inr [OF f] by simp_all
      note facts = sv [unfolded support_True_iff]
      have vin': "v \<in> set (view_votes ns')"
        using vin ext by (auto simp: view_extends_def)
      obtain b'' where r: "is_FFG_vote_in_support_of_checkpoint_justification st v c ns' = Inr b''"
        using pset_filter_r_returns [OF f' vin'] by blast
      have "is_FFG_vote_in_support_of_checkpoint_justification st v c ns'
           = is_justified_checkpoint st (ffg_source (message v)) ns'"
        using facts
        by (intro support_reaches_source valid_FFG_vote_mono [OF ext stub]
            ancestor_lookup_mono [OF ext]) simp_all
      then have j': "is_justified_checkpoint st (ffg_source (message v)) ns' = Inr b''"
        using r by simp
      have "length (votes_up_to ns (chkp_slot (ffg_source (message v))))
          < length (votes_up_to ns (chkp_slot c))"
        using facts vin by (intro is_justified_checkpoint_call_decreases(2) [of st v ns]) simp_all
      from less.hyps [OF this _ j'] facts have b''
        by simp
      then show "v \<in> set supporting'"
        using pset_filter_r_Inr [OF f'] vin' r by simp
    qed
    have "validator_set_weight (pset_map_to_pset (\<lambda>vote. sender vote) supporting)
            (get_validator_set_for_slot st cb (block_slot c) ns)
        \<le> validator_set_weight (pset_map_to_pset (\<lambda>vote. sender vote) supporting')
            (get_validator_set_for_slot st cb (block_slot c) ns)"
      using sub nonneg
      by (intro validator_set_weight_mono) (auto simp: set_pset_map_to_pset)
    then show ?thesis
      using sm b' by (simp add: is_supermajority_def stub)
  qed
qed

lemma set_pset_add: "set (pset_add s x) = insert x (set s)"
  by (auto simp: pset_add_def)

lemma get_justified_checkpoints_set:
  assumes "get_justified_checkpoints st ns = Inr J"
  shows "set J = insert (genesis_checkpoint st ns)
           {c \<in> set (get_set_FFG_targets (view_votes ns)).
              is_justified_checkpoint st c ns = Inr True}"
    and "\<And>c. c \<in> set (get_set_FFG_targets (view_votes ns)) \<Longrightarrow>
           \<exists>b. is_justified_checkpoint st c ns = Inr b"
proof -
  from assms obtain js where
    js: "pset_filter_r (\<lambda>c. is_justified_checkpoint st c ns)
           (get_set_FFG_targets (view_votes ns)) = Inr js" and
    J: "J = pset_add js (genesis_checkpoint st ns)"
    by (auto simp: get_justified_checkpoints_def filter_out_non_justified_checkpoint_def
        bind_Inr_iff)
  show "set J = insert (genesis_checkpoint st ns)
           {c \<in> set (get_set_FFG_targets (view_votes ns)).
              is_justified_checkpoint st c ns = Inr True}"
    using pset_filter_r_Inr [OF js] J by (auto simp: set_pset_add)
  show "\<exists>b. is_justified_checkpoint st c ns = Inr b"
    if "c \<in> set (get_set_FFG_targets (view_votes ns))" for c
    using pset_filter_r_returns [OF js that] .
qed

lemma get_justified_checkpoints_mono:
  assumes ext: "view_extends ns ns'"
    and stub: "\<forall>b s. get_validator_set_for_slot st b s ns' = get_validator_set_for_slot st b s ns"
    and nonneg: "\<forall>b s. nonnegative_balances (get_validator_set_for_slot st b s ns)"
    and J: "get_justified_checkpoints st ns = Inr J"
    and J': "get_justified_checkpoints st ns' = Inr J'"
  shows "set J \<subseteq> set J'"
proof
  fix c assume "c \<in> set J"
  then consider "c = genesis_checkpoint st ns"
    | "c \<in> set (get_set_FFG_targets (view_votes ns))"
      "is_justified_checkpoint st c ns = Inr True"
    using get_justified_checkpoints_set(1) [OF J] by auto
  then show "c \<in> set J'"
  proof cases
    case 1
    then have "c = genesis_checkpoint st ns'"
      using ext by (simp add: genesis_checkpoint_def view_extends_def)
    then show ?thesis
      using get_justified_checkpoints_set(1) [OF J'] by simp
  next
    case 2
    have t': "c \<in> set (get_set_FFG_targets (view_votes ns'))"
      using 2(1) ext
      by (auto simp: get_set_FFG_targets_def set_pset_map_to_pset view_extends_def)
    then obtain b where b: "is_justified_checkpoint st c ns' = Inr b"
      using get_justified_checkpoints_set(2) [OF J'] by blast
    have b
      by (rule is_justified_checkpoint_mono [OF ext stub nonneg 2(2) b])
    then show ?thesis
      using get_justified_checkpoints_set(1) [OF J'] t' b by simp
  qed
qed

lemma max_from_props:
  "max_from key best xs \<in> insert best (set xs)
   \<and> (\<forall>c \<in> insert best (set xs). key c \<le> key (max_from key best xs))"
proof (induction xs arbitrary: best)
  case Nil
  then show ?case by simp
next
  case (Cons x xs)
  show ?case
  proof (cases "key best < key x")
    case True
    then show ?thesis
      using Cons [of x] by (auto intro: order_trans less_imp_le)
  next
    case False
    then show ?thesis
      using Cons [of best] by (auto simp: not_less intro: order_trans)
  qed
qed

lemma pset_max_props:
  assumes "pset_max s key = Inr m"
  shows "m \<in> set s" and "\<And>c. c \<in> set s \<Longrightarrow> key c \<le> key m"
proof -
  from assms obtain x xs where s: "s = x # xs" and m: "m = max_from key x xs"
    by (cases s) (auto simp: pset_max_def)
  show "m \<in> set s"
    using max_from_props [of key x xs] s m by simp
  show "key c \<le> key m" if "c \<in> set s" for c
    using max_from_props [of key x xs] s m that by auto
qed

lemma greatest_justified_checkpoint_order:
  assumes ext: "view_extends ns ns'"
    and stub: "\<forall>b s. get_validator_set_for_slot st b s ns' = get_validator_set_for_slot st b s ns"
    and nonneg: "\<forall>b s. nonnegative_balances (get_validator_set_for_slot st b s ns)"
    and g: "get_greatest_justified_checkpoint st ns = Inr g"
    and g': "get_greatest_justified_checkpoint st ns' = Inr g'"
  shows "(chkp_slot g, block_slot g) \<le> (chkp_slot g', block_slot g')"
proof -
  from g obtain J where J: "get_justified_checkpoints st ns = Inr J"
    and m: "pset_max J (\<lambda>c. (chkp_slot c, block_slot c)) = Inr g"
    by (auto simp: get_greatest_justified_checkpoint_def bind_Inr_iff)
  from g' obtain J' where J': "get_justified_checkpoints st ns' = Inr J'"
    and m': "pset_max J' (\<lambda>c. (chkp_slot c, block_slot c)) = Inr g'"
    by (auto simp: get_greatest_justified_checkpoint_def bind_Inr_iff)
  have "g \<in> set J'"
    using pset_max_props(1) [OF m] get_justified_checkpoints_mono [OF ext stub nonneg J J']
    by blast
  from pset_max_props(2) [OF m' this] show ?thesis .
qed



lemma is_justified_checkpoint_genesis:
  "c = genesis_checkpoint st ns \<Longrightarrow> is_justified_checkpoint st c ns = Inr True"
  by (simp add: is_justified_checkpoint_unfold)

lemmas merge_defs = execute_view_merge_def get_all_blocks_def pmap_values_def
  get_votes_included_in_blocks_def pset_merge_flatten_def pset_merge_def pmap_merge_def
  pset_get_empty_def pmap_get_empty_def

lemmas justified_defs = get_greatest_justified_checkpoint_def get_justified_checkpoints_def
  filter_out_non_justified_checkpoint_def get_set_FFG_targets_def pset_max_def
  get_validators_in_FFG_support_of_checkpoint_justification_def
  filter_out_FFG_votes_not_in_FFG_support_of_checkpoint_justification_def
  is_FFG_vote_in_support_of_checkpoint_justification_def

lemma ex_merge_grow_after:
  "common (execute_view_merge ex_merge_grow) = ex_common 2 ex_view [ex_link1, ex_just2, ex_just3]"
  by (simp add: ex_merge_grow_def merge_defs helper_defs ex_defs ex_defs3)

lemma ex_merge_grow_before: "common ex_merge_grow = ex_common 2 ex_view []"
  by (simp add: ex_merge_grow_def ex_state_def)

lemma ex_justified_A:
  "is_justified_checkpoint ex_stubs (ex_checkpoint ''A'' 1 1)
     (ex_common 2 ex_view [ex_link1, ex_just2, ex_just3]) = Inr True"
  by (subst is_justified_checkpoint_unfold)
     (simp add: justified_defs is_justified_checkpoint_genesis eval_defs helper_defs ex_defs
        ex_defs3)

lemma ex_greatest_empty:
  "get_greatest_justified_checkpoint ex_stubs (ex_common 2 ex_view []) = Inr ex_gcp"
  by (simp add: justified_defs eval_defs helper_defs ex_defs)

lemma ex_common_sel:
  "configuration (ex_common c b v) = ex_config"
  "view_blocks (ex_common c b v) = b"
  "view_votes (ex_common c b v) = v"
  "current_slot (ex_common c b v) = c"
  by (simp_all add: ex_common_def)

lemma ex_genesis_checkpoint: "genesis_checkpoint ex_stubs (ex_common c b v) = ex_gcp"
  by (simp add: genesis_checkpoint_def ex_defs)

lemma ex_just_targets:
  "ffg_target (message ex_link1) = ex_checkpoint ''A'' 1 1"
  "ffg_target (message ex_just2) = ex_checkpoint ''A'' 1 1"
  "ffg_target (message ex_just3) = ex_checkpoint ''A'' 1 1"
  by (simp_all add: ex_defs ex_defs3)

lemma ex_greatest_A:
  "get_greatest_justified_checkpoint ex_stubs
     (ex_common 2 ex_view [ex_link1, ex_just2, ex_just3]) = Inr (ex_checkpoint ''A'' 1 1)"
proof -
  have "get_justified_checkpoints ex_stubs (ex_common 2 ex_view [ex_link1, ex_just2, ex_just3])
      = Inr [ex_checkpoint ''A'' 1 1, ex_gcp]"
    by (simp add: get_justified_checkpoints_def filter_out_non_justified_checkpoint_def
        get_set_FFG_targets_def pset_map_to_pset_def ex_common_sel ex_just_targets
        ex_justified_A [unfolded ex_checkpoint_def] ex_genesis_checkpoint bind_def pset_add_def
        ex_gcp_def ex_checkpoint_def)
  then show ?thesis
    by (simp add: get_greatest_justified_checkpoint_def bind_def pset_max_def ex_gcp_def
        ex_checkpoint_def)
qed


lemma ex_balances_nonnegative: "nonnegative_balances ex_balances"
  by (simp add: nonnegative_balances_def ex_balances_def)













lemma execute_view_merge_extends:
  assumes "\<forall>h b. map_of (view_blocks (common ns)) h = Some b \<longrightarrow>
             map_of (buffer_blocks ns) h = None \<or> map_of (buffer_blocks ns) h = Some b"
  shows "view_extends (common ns) (common (execute_view_merge ns))"
proof -
  have "map_of (view_blocks (common ns)) \<subseteq>\<^sub>m
          map_of (view_blocks (common ns)) ++ map_of (buffer_blocks ns)"
    unfolding map_le_def
  proof
    fix h assume "h \<in> dom (map_of (view_blocks (common ns)))"
    then obtain b where b: "map_of (view_blocks (common ns)) h = Some b"
      by auto
    with assms have "map_of (buffer_blocks ns) h = None \<or> map_of (buffer_blocks ns) h = Some b"
      by blast
    then show "map_of (view_blocks (common ns)) h
        = (map_of (view_blocks (common ns)) ++ map_of (buffer_blocks ns)) h"
      using b by (auto simp: map_add_def)
  qed
  then show ?thesis
    by (auto simp: view_extends_def execute_view_merge_def Let_def pmap_merge_def
        set_pset_merge)
qed

text \<open>
  Across \<open>execute_view_merge\<close>: when the block buffer binds no hash of the view to a
  different block, the merged view extends the view, and the greatest justified checkpoint
  does not decrease (under the same conditions on the validator-set lookup and on the two
  calls).
\<close>

theorem greatest_justified_checkpoint_monotone_view_merge:
  assumes "\<forall>h b. map_of (view_blocks (common ns)) h = Some b \<longrightarrow>
             map_of (buffer_blocks ns) h = None \<or> map_of (buffer_blocks ns) h = Some b"
    and "\<forall>b s. get_validator_set_for_slot st b s (common (execute_view_merge ns))
             = get_validator_set_for_slot st b s (common ns)"
    and "\<forall>b s. nonnegative_balances (get_validator_set_for_slot st b s (common ns))"
    and "get_greatest_justified_checkpoint st (common ns) = Inr g"
    and "get_greatest_justified_checkpoint st (common (execute_view_merge ns)) = Inr g'"
  shows "(chkp_slot g, block_slot g) \<le> (chkp_slot g', block_slot g')"
  using execute_view_merge_extends [OF assms(1)] assms(2-5)
  by (rule greatest_justified_checkpoint_order)


theorem greatest_justified_checkpoint_monotone_view_merge_witness:
  "get_greatest_justified_checkpoint ex_stubs (common ex_merge_grow) = Inr ex_gcp
   \<and> get_greatest_justified_checkpoint ex_stubs (common (execute_view_merge ex_merge_grow))
       = Inr (ex_checkpoint ''A'' 1 1)
   \<and> (chkp_slot ex_gcp, block_slot ex_gcp)
       \<le> (chkp_slot (ex_checkpoint ''A'' 1 1), block_slot (ex_checkpoint ''A'' 1 1))"
proof -
  have norebind: "\<forall>h b. map_of (view_blocks (common ex_merge_grow)) h = Some b \<longrightarrow>
             map_of (buffer_blocks ex_merge_grow) h = None
             \<or> map_of (buffer_blocks ex_merge_grow) h = Some b"
    by (simp add: ex_merge_grow_def ex_state_def)
  have stub: "\<forall>b s. get_validator_set_for_slot ex_stubs b s
                 (common (execute_view_merge ex_merge_grow))
             = get_validator_set_for_slot ex_stubs b s (common ex_merge_grow)"
    by (simp add: ex_stubs_def)
  have nonneg: "\<forall>b s. nonnegative_balances
                  (get_validator_set_for_slot ex_stubs b s (common ex_merge_grow))"
    by (simp add: ex_stubs_def ex_balances_nonnegative)
  have g: "get_greatest_justified_checkpoint ex_stubs (common ex_merge_grow) = Inr ex_gcp"
    unfolding ex_merge_grow_before by (rule ex_greatest_empty)
  have g': "get_greatest_justified_checkpoint ex_stubs
              (common (execute_view_merge ex_merge_grow)) = Inr (ex_checkpoint ''A'' 1 1)"
    unfolding ex_merge_grow_after by (rule ex_greatest_A)
  from greatest_justified_checkpoint_monotone_view_merge [OF norebind stub nonneg g g']
  show ?thesis
    using g g' by simp
qed

end
